theory Spec2Isabelle
  imports Main "HOL-Library.AList" "HOL-Library.Sublist"
begin

section \<open>Strings\<close>

text \<open>
  A string is the list of its code units. The helpers below are the JavaScript string
  methods the sources call. Case mapping is modelled for the ASCII letters, white space
  for the code units below 256.
\<close>

definition lowerChar :: "char \<Rightarrow> char" where
  "lowerChar c =
     (case map_of (zip ''ABCDEFGHIJKLMNOPQRSTUVWXYZ'' ''abcdefghijklmnopqrstuvwxyz'') c of
        Some d \<Rightarrow> d
      | None \<Rightarrow> c)"

definition toLowerCase :: "string \<Rightarrow> string" where
  "toLowerCase s = map lowerChar s"

text \<open>
  \<^verbatim>\<open>s.includes(sub)\<close>: \<open>sub\<close> occurs in \<open>s\<close> as a contiguous run. The name carries a
  prime because \<^verbatim>\<open>includes\<close> is a keyword of Isabelle.
\<close>

fun includes' :: "string \<Rightarrow> string \<Rightarrow> bool" where
  "includes' [] sub = (sub = [])"
| "includes' (c # cs) sub = (prefix sub (c # cs) \<or> includes' cs sub)"

text \<open>\<^verbatim>\<open>s.split(sep)\<close> for a separator of one code unit: never the empty array.\<close>

fun split_on :: "char \<Rightarrow> string \<Rightarrow> string list" where
  "split_on sep [] = [[]]"
| "split_on sep (c # cs) =
     (if c = sep then [] # split_on sep cs
      else case split_on sep cs of [] \<Rightarrow> [[c]] | l # ls \<Rightarrow> (c # l) # ls)"

definition isWhiteSpace :: "char \<Rightarrow> bool" where
  "isWhiteSpace c \<longleftrightarrow> c \<in> set [CHR 0x09, CHR 0x0A, CHR 0x0B, CHR 0x0C, CHR 0x0D, CHR 0x20, CHR 0xA0]"

definition trim :: "string \<Rightarrow> string" where
  "trim s = rev (dropWhile isWhiteSpace (rev (dropWhile isWhiteSpace s)))"

text \<open>
  JavaScript truthiness of an optional string: \<^verbatim>\<open>undefined\<close> and the empty string are
  falsy.
\<close>

definition truthy :: "string option \<Rightarrow> bool" where
  "truthy s \<longleftrightarrow> s \<noteq> None \<and> s \<noteq> Some []"

section \<open>Streaming process executor (\<^verbatim>\<open>executeCommandStreaming\<close>, \<^verbatim>\<open>src/utils/command.ts\<close>)\<close>

record CommandResult =
  stdout :: string
  stderr :: string
  code :: int

record StreamingCommandResult = CommandResult +
  timedOut :: bool
  fatalMatch :: "string option"

text \<open>
  The two \<^verbatim>\<open>McpError\<close>s the promise is rejected with: the buffer message carries
  \<^verbatim>\<open>maxBuffer\<close>, the spawn failure the message of the error event.
\<close>

datatype mcp_error = BufferExceeded nat | ExecuteFailed string

datatype settlement = Resolved StreamingCommandResult | Rejected mcp_error

text \<open>
  Node runs the handlers of one child process one after the other, each to its end, so a
  run is the sequence of events the handlers receive: a chunk on stdout, a chunk on
  stderr, the timer of \<^verbatim>\<open>setTimeout\<close> firing, \<^verbatim>\<open>close\<close> with the exit code (\<open>None\<close>
  for \<^verbatim>\<open>null\<close>, a child ended by a signal), \<^verbatim>\<open>error\<close> with its message. The \<^verbatim>\<open>timeout\<close>
  option handed to \<^verbatim>\<open>spawn\<close> makes Node kill the child as well; it touches none of the
  variables below and shows only in the close event that follows.
\<close>

datatype event =
    StdoutData string
  | StderrData string
  | TimerFired
  | Close "int option"
  | ProcessError string

text \<open>
  A fatal pattern is a \<^verbatim>\<open>RegExp\<close>; the code only uses \<^verbatim>\<open>chunk.match(pattern)\<close> and, of a
  match, \<^verbatim>\<open>match[0]\<close>. A pattern is therefore the function from a chunk to the text of
  its first match. \<open>literal_ci\<close> is that function for a pattern that is a literal
  with the flag \<^verbatim>\<open>i\<close>, as the three patterns of the build tool are.
\<close>

type_synonym pattern = "string \<Rightarrow> string option"

fun literal_ci :: "string \<Rightarrow> pattern" where
  "literal_ci lit [] = (if lit = [] then Some [] else None)"
| "literal_ci lit (c # cs) =
     (if length lit \<le> length (c # cs) \<and> toLowerCase (take (length lit) (c # cs)) = toLowerCase lit
      then Some (take (length lit) (c # cs))
      else literal_ci lit cs)"

record StreamingOptions =
  maxBuffer :: nat
  fatalPatterns :: "pattern list"

text \<open>
  The variables the handlers close over, and what they do to the outside:
  \<open>kills\<close> counts the calls of \<^verbatim>\<open>child.kill()\<close>, \<open>notified\<close> lists the arguments of
  \<^verbatim>\<open>onFatalMatch\<close>, \<open>timerArmed\<close> tells whether the timer is still pending (not fired,
  not cleared), \<open>settled\<close> is the state of the promise: the first \<^verbatim>\<open>resolve\<close> or
  \<^verbatim>\<open>reject\<close> settles it, later ones are without effect.
\<close>

record exec_state =
  out :: string
  err :: string
  timedOutFlag :: bool
  fatal :: "string option"
  kills :: nat
  notified :: "string list"
  timerArmed :: bool
  settled :: "settlement option"

definition initial :: exec_state where
  "initial = \<lparr>out = [], err = [], timedOutFlag = False, fatal = None, kills = 0,
     notified = [], timerArmed = True, settled = None\<rparr>"

definition settle :: "settlement \<Rightarrow> exec_state \<Rightarrow> exec_state" where
  "settle r s = (case settled s of None \<Rightarrow> s\<lparr>settled := Some r\<rparr> | Some _ \<Rightarrow> s)"

text \<open>The first pattern of the list that matches the chunk, with the matched text.\<close>

fun firstMatch :: "pattern list \<Rightarrow> string \<Rightarrow> string option" where
  "firstMatch [] chunk = None"
| "firstMatch (p # ps) chunk = (case p chunk of Some m \<Rightarrow> Some m | None \<Rightarrow> firstMatch ps chunk)"

definition checkPatterns :: "StreamingOptions \<Rightarrow> string \<Rightarrow> exec_state \<Rightarrow> exec_state" where
  "checkPatterns opts chunk s =
     (if truthy (fatal s) then s
      else case firstMatch (fatalPatterns opts) chunk of
             None \<Rightarrow> s
           | Some m \<Rightarrow> s\<lparr>fatal := Some m, notified := notified s @ [m], kills := kills s + 1\<rparr>)"

fun step :: "StreamingOptions \<Rightarrow> exec_state \<Rightarrow> event \<Rightarrow> exec_state" where
  "step opts s (StdoutData text) =
     (let s1 = checkPatterns opts text (s\<lparr>out := out s @ text\<rparr>) in
      if length (out s1) > maxBuffer opts
      then settle (Rejected (BufferExceeded (maxBuffer opts)))
             (s1\<lparr>kills := kills s1 + 1, timerArmed := False\<rparr>)
      else s1)"
| "step opts s (StderrData text) = checkPatterns opts text (s\<lparr>err := err s @ text\<rparr>)"
| "step opts s TimerFired =
     (if timerArmed s then s\<lparr>timedOutFlag := True, kills := kills s + 1, timerArmed := False\<rparr>
      else s)"
| "step opts s (Close c) =
     settle (Resolved \<lparr>stdout = trim (out s), stderr = trim (err s),
                       code = (case c of None \<Rightarrow> 0 | Some n \<Rightarrow> n),
                       timedOut = timedOutFlag s, fatalMatch = fatal s\<rparr>)
       (s\<lparr>timerArmed := False\<rparr>)"
| "step opts s (ProcessError msg) = settle (Rejected (ExecuteFailed msg)) (s\<lparr>timerArmed := False\<rparr>)"

definition run :: "StreamingOptions \<Rightarrow> event list \<Rightarrow> exec_state" where
  "run opts evs = foldl (step opts) initial evs"

text \<open>
  The three ways a run can end that the result is meant to tell apart: the timer
  fired, a fatal pattern matched, or neither.
\<close>

definition isTimeout :: "StreamingCommandResult \<Rightarrow> bool" where
  "isTimeout r \<longleftrightarrow> timedOut r"

definition isFatalMatch :: "StreamingCommandResult \<Rightarrow> bool" where
  "isFatalMatch r \<longleftrightarrow> fatalMatch r \<noteq> None"

definition isNormalExit :: "StreamingCommandResult \<Rightarrow> bool" where
  "isNormalExit r \<longleftrightarrow> \<not> timedOut r \<and> fatalMatch r = None"

text \<open>What a sequence of events has delivered: the stdout text, the stderr text, the chunks.\<close>

definition stdoutText :: "event list \<Rightarrow> string" where
  "stdoutText evs = concat (map (\<lambda>e. case e of StdoutData t \<Rightarrow> t | _ \<Rightarrow> []) evs)"

definition stderrText :: "event list \<Rightarrow> string" where
  "stderrText evs = concat (map (\<lambda>e. case e of StderrData t \<Rightarrow> t | _ \<Rightarrow> []) evs)"

definition dataChunks :: "event list \<Rightarrow> string list" where
  "dataChunks evs =
     concat (map (\<lambda>e. case e of StdoutData t \<Rightarrow> [t] | StderrData t \<Rightarrow> [t] | _ \<Rightarrow> []) evs)"

fun isStderrData :: "event \<Rightarrow> bool" where
  "isStderrData (StderrData t) = True"
| "isStderrData _ = False"

section \<open>Response cache (the second half of \<^verbatim>\<open>src/utils/command.ts\<close>: response-cache)\<close>

text \<open>
  The cached value. \<^verbatim>\<open>store\<close> receives \<^verbatim>\<open>Omit<CachedResponse, 'id' | 'timestamp'>\<close>
  and builds \<^verbatim>\<open>{ ...data, id, timestamp: new Date() }\<close>, so the stored record is the
  payload extended by the two generated fields. The field \<^verbatim>\<open>id\<close> is written \<open>id'\<close>
  (\<open>id\<close> is the identity function of HOL). A timestamp is the number of milliseconds
  that \<^verbatim>\<open>Date.getTime()\<close> returns. The cache never looks into \<^verbatim>\<open>metadata\<close>, so its
  type is a parameter.
\<close>

record 'm payload =
  tool :: string
  fullOutput :: string
  stderr :: string
  exitCode :: int
  command :: string
  metadata :: 'm

record 'm CachedResponse = "'m payload" +
  id' :: string
  timestamp :: int

text \<open>
  The class \<^verbatim>\<open>ResponseCache\<close>: a JavaScript \<^verbatim>\<open>Map\<close> keeps its keys in insertion
  order, \<^verbatim>\<open>set\<close> on a present key replaces the value in place and on a new key appends,
  \<^verbatim>\<open>delete\<close> removes the key. That is an association list with \<^const>\<open>AList.update\<close>
  and \<^const>\<open>AList.delete\<close>. \<^verbatim>\<open>maxAge\<close> and \<^verbatim>\<open>maxEntries\<close> are instance fields with the
  initial values \<^verbatim>\<open>1000 * 60 * 30\<close> and \<^verbatim>\<open>100\<close>.
\<close>

record 'm ResponseCache =
  cache :: "(string \<times> 'm CachedResponse) list"
  maxAge :: int
  maxEntries :: nat

definition new_ResponseCache :: "'m ResponseCache" where
  "new_ResponseCache = \<lparr>cache = [], maxAge = 1000 * 60 * 30, maxEntries = 100\<rparr>"

text \<open>The test \<^verbatim>\<open>now - cached.timestamp.getTime() > this.maxAge\<close> of \<^verbatim>\<open>get\<close> and \<^verbatim>\<open>cleanup\<close>.\<close>

definition expired :: "'m ResponseCache \<Rightarrow> int \<Rightarrow> 'm CachedResponse \<Rightarrow> bool" where
  "expired c now cached \<longleftrightarrow> now - timestamp cached > maxAge c"

text \<open>
  \<^verbatim>\<open>cleanup\<close>: the first loop deletes every expired entry (deleting the current key while
  iterating a \<^verbatim>\<open>Map\<close> is well defined, and every entry is visited). When the size still
  exceeds \<^verbatim>\<open>maxEntries\<close>, the entries are sorted by timestamp ascending
  (\<^verbatim>\<open>Array.prototype.sort\<close> is stable, as \<^const>\<open>sort_key\<close> is), and the keys of the first
  \<^verbatim>\<open>size - maxEntries\<close> of them are deleted one by one.
\<close>

definition purge :: "'m ResponseCache \<Rightarrow> int \<Rightarrow> (string \<times> 'm CachedResponse) list" where
  "purge c now = filter (\<lambda>(k, cached). \<not> expired c now cached) (cache c)"

definition toRemove :: "nat \<Rightarrow> (string \<times> 'm CachedResponse) list \<Rightarrow> (string \<times> 'm CachedResponse) list" where
  "toRemove limit es = take (length es - limit) (sort_key (\<lambda>(k, cached). timestamp cached) es)"

definition cleanup :: "'m ResponseCache \<Rightarrow> int \<Rightarrow> 'm ResponseCache" where
  "cleanup c now =
     (let es = purge c now in
      if length es > maxEntries c
      then c\<lparr>cache := fold (\<lambda>(k, cached). AList.delete k) (toRemove (maxEntries c) es) es\<rparr>
      else c\<lparr>cache := es\<rparr>)"

text \<open>
  \<^verbatim>\<open>store\<close>. The environment supplies what the code reads from outside: \<open>uuid\<close> is the
  result of \<^verbatim>\<open>randomUUID()\<close>, \<open>t0\<close> the clock read by \<^verbatim>\<open>new Date()\<close>, \<open>t1\<close> the clock
  read by \<^verbatim>\<open>Date.now()\<close> inside \<^verbatim>\<open>cleanup\<close>. The debounced persist only schedules a
  write of the map to disk and does not change the map; it is left out.
\<close>

definition store :: "'m ResponseCache \<Rightarrow> string \<Rightarrow> int \<Rightarrow> int \<Rightarrow> 'm payload \<Rightarrow> string \<times> 'm ResponseCache" where
  "store c uuid t0 t1 data =
     (let cached = payload.extend data (CachedResponse.fields uuid t0);
          c1 = c\<lparr>cache := AList.update uuid cached (cache c)\<rparr>
      in (uuid, cleanup c1 t1))"

text \<open>\<^verbatim>\<open>get\<close> returns the entry (or \<open>None\<close> for \<^verbatim>\<open>undefined\<close>) and the cache it leaves.\<close>

definition get :: "'m ResponseCache \<Rightarrow> string \<Rightarrow> int \<Rightarrow> 'm CachedResponse option \<times> 'm ResponseCache" where
  "get c k now =
     (case map_of (cache c) k of
        None \<Rightarrow> (None, c)
      | Some cached \<Rightarrow>
          if expired c now cached then (None, c\<lparr>cache := AList.delete k (cache c)\<rparr>)
          else (Some cached, c))"

text \<open>
  \<^verbatim>\<open>getRecentByTool(tool, limit = 5)\<close>: the values in insertion order, filtered by tool,
  sorted with the comparator \<^verbatim>\<open>b.timestamp - a.timestamp\<close> (stable, descending), then
  \<^verbatim>\<open>slice(0, limit)\<close>. A negative end of \<^verbatim>\<open>slice\<close> counts from the end of the array.
  The function reads no clock.
\<close>

definition slice0 :: "int \<Rightarrow> 'a list \<Rightarrow> 'a list" where
  "slice0 limit xs = (if limit < 0 then take (nat (int (length xs) + limit)) xs else take (nat limit) xs)"

definition getRecentByTool :: "'m ResponseCache \<Rightarrow> string \<Rightarrow> int option \<Rightarrow> 'm CachedResponse list" where
  "getRecentByTool c tname limit =
     slice0 (case limit of None \<Rightarrow> 5 | Some n \<Rightarrow> n)
       (sort_key (\<lambda>cached. - timestamp cached)
          (filter (\<lambda>cached. tool cached = tname) (map snd (cache c))))"

definition delete :: "'m ResponseCache \<Rightarrow> string \<Rightarrow> bool \<times> 'm ResponseCache" where
  "delete c k = (k \<in> fst ` set (cache c), c\<lparr>cache := AList.delete k (cache c)\<rparr>)"

definition clear :: "'m ResponseCache \<Rightarrow> 'm ResponseCache" where
  "clear c = c\<lparr>cache := []\<rparr>"


text \<open>
  A sequence of \<^verbatim>\<open>store\<close> calls; each holds the handle generated, the two clock
  readings and the payload. \<open>stored\<close> is the entry that such a call inserts.
\<close>

fun store_all :: "'m ResponseCache \<Rightarrow> (string \<times> int \<times> int \<times> 'm payload) list \<Rightarrow> 'm ResponseCache" where
  "store_all c [] = c"
| "store_all c ((uuid, t0, t1, d) # rest) = store_all (snd (store c uuid t0 t1 d)) rest"

definition stored :: "string \<times> int \<times> int \<times> 'm payload \<Rightarrow> string \<times> 'm CachedResponse" where
  "stored x = (case x of (uuid, t0, t1, d) \<Rightarrow> (uuid, payload.extend d (CachedResponse.fields uuid t0)))"

section \<open>Build summary (\<^verbatim>\<open>extractBuildSummary\<close>, response-cache)\<close>

definition isErrorLine :: "string \<Rightarrow> bool" where
  "isErrorLine line \<longleftrightarrow> includes' line ''error:'' \<or> includes' line ''** BUILD FAILED **''"

definition isWarningLine :: "string \<Rightarrow> bool" where
  "isWarningLine line \<longleftrightarrow> includes' line ''warning:''"

definition isSuccessIndicator :: "string \<Rightarrow> bool" where
  "isSuccessIndicator line \<longleftrightarrow>
     includes' line ''** BUILD SUCCEEDED **'' \<or> includes' line ''Build completed''"

text \<open>\<^verbatim>\<open>(output + '\n' + stderr).split('\n')\<close>\<close>

definition buildLines :: "string \<Rightarrow> string \<Rightarrow> string list" where
  "buildLines output errText = split_on (CHR 0x0A) (output @ [CHR 0x0A] @ errText)"

text \<open>
  The summary object. \<^verbatim>\<open>duration\<close> and \<^verbatim>\<open>target\<close> come from two regular-expression
  matches on \<^verbatim>\<open>output\<close> alone and enter no other field; \<^verbatim>\<open>duration\<close> is moreover a
  floating-point number. They are left out of the record.
\<close>

record BuildSummary =
  success :: bool
  exitCode :: int
  errorCount :: nat
  warningCount :: nat
  hasErrors :: bool
  hasWarnings :: bool
  firstError :: "string option"
  errors :: "string list"
  warnings :: "string list"
  buildSizeBytes :: nat

definition extractBuildSummary :: "string \<Rightarrow> string \<Rightarrow> int \<Rightarrow> BuildSummary" where
  "extractBuildSummary output errText ec =
     (let lines = buildLines output errText;
          errs = filter isErrorLine lines;
          warns = filter isWarningLine lines;
          successIndicators = filter isSuccessIndicator lines
      in \<lparr>success = (ec = 0 \<and> length successIndicators > 0),
          exitCode = ec,
          errorCount = length errs,
          warningCount = length warns,
          hasErrors = (length errs > 0),
          hasWarnings = (length warns > 0),
          firstError = (case errs of [] \<Rightarrow> None | e # _ \<Rightarrow> Some (trim e)),
          errors = map trim (take 10 errs),
          warnings = map trim (take 10 warns),
          buildSizeBytes = length output + length errText\<rparr>)"

section \<open>Build tool: what it reports (\<^verbatim>\<open>xcodebuildBuildTool\<close>)\<close>

text \<open>
  The part of \<^verbatim>\<open>xcodebuildBuildTool\<close> between the end of the command and the returned
  value that decides success and error: \<^verbatim>\<open>buildSuccess\<close>, \<^verbatim>\<open>augmentedErrors\<close>,
  \<^verbatim>\<open>adjustedSummary.firstError\<close>, the \<^verbatim>\<open>success\<close> and \<^verbatim>\<open>errors\<close> of the response body and
  the \<^verbatim>\<open>isError\<close> of the tool result. Both versions of the tool in the repository have
  the same text here. \<^verbatim>\<open>timeoutMs\<close> is \<^verbatim>\<open>55_000\<close>.
\<close>

record ToolResponse =
  responseSuccess :: bool
  responseErrors :: "string list option"
  responseFirstError :: "string option"
  configurationLearned :: bool
  isError :: bool

definition buildSuccess :: "StreamingCommandResult \<Rightarrow> bool" where
  "buildSuccess result \<longleftrightarrow>
     success (extractBuildSummary (stdout result) (CommandResult.stderr result) (code result))
     \<and> \<not> timedOut result"

definition augmentedErrors :: "StreamingCommandResult \<Rightarrow> string list" where
  "augmentedErrors result =
     (let summary = extractBuildSummary (stdout result) (CommandResult.stderr result) (code result);
          e0 = errors summary;
          e1 = (if truthy (fatalMatch result)
                then (''Detected fatal xcodebuild output: '' @ the (fatalMatch result)) # e0
                else e0)
      in if timedOut result then ''Build aborted after 55000ms (timeout)'' # e1 else e1)"

definition xcodebuildBuildTool_response :: "StreamingCommandResult \<Rightarrow> ToolResponse" where
  "xcodebuildBuildTool_response result =
     (let summary = extractBuildSummary (stdout result) (CommandResult.stderr result) (code result)
      in \<lparr>responseSuccess = buildSuccess result,
          responseErrors = (if length (augmentedErrors result) > 0
                            then Some (augmentedErrors result) else None),
          responseFirstError =
            (if truthy (firstError summary) then firstError summary
             else if truthy (fatalMatch result) then fatalMatch result
             else if timedOut result then Some ''Build timed out after 55000ms''
             else None),
          configurationLearned = buildSuccess result,
          isError = (\<not> success summary)\<rparr>)"

section \<open>Destination resolution\<close>

text \<open>
  \<^verbatim>\<open>BuildConfig\<close> is declared in \<^verbatim>\<open>state/project-cache.ts\<close>, which is not among the
  sources; its fields are the ones the build tool writes into \<^verbatim>\<open>finalConfig\<close>.
\<close>

record BuildConfig =
  scheme :: string
  configuration :: string
  destination :: "string option"
  sdk :: "string option"
  derivedDataPath :: "string option"

subsection \<open>Platform hints\<close>

definition derivePlatformFromToken :: "string option \<Rightarrow> string option" where
  "derivePlatformFromToken token =
     (if \<not> truthy token then None
      else let lower = toLowerCase (the token) in
        if includes' lower ''mac'' then Some ''macos''
        else if includes' lower ''iphone'' \<or> includes' lower ''ios'' then Some ''ios''
        else if includes' lower ''tvos'' \<or> includes' lower ''appletv'' then Some ''tvos''
        else if includes' lower ''watch'' then Some ''watchos''
        else if includes' lower ''vision'' then Some ''visionos''
        else let letters = filter (\<lambda>c. c \<in> set ''abcdefghijklmnopqrstuvwxyz'') lower
             in if letters = [] then None else Some letters)"

record SdkInfo =
  platform :: "string option"
  isSimulator :: bool

definition deriveSdkInfo :: "string option \<Rightarrow> SdkInfo" where
  "deriveSdkInfo s =
     (if \<not> truthy s then \<lparr>platform = None, isSimulator = False\<rparr>
      else let lower = toLowerCase (the s)
           in \<lparr>platform = derivePlatformFromToken (Some lower),
               isSimulator = includes' lower ''simulator''\<rparr>)"

text \<open>
  \<^verbatim>\<open>destination.match(/platform=([^,]+)/i)\<close>, group 1: at the leftmost place where
  \<^verbatim>\<open>platform=\<close> stands (in any case) in front of a code unit other than a comma, the
  longest run of code units other than a comma.
\<close>

fun matchPlatform :: "string \<Rightarrow> string option" where
  "matchPlatform [] = None"
| "matchPlatform (c # cs) =
     (if toLowerCase (take 9 (c # cs)) = ''platform='' \<and> takeWhile (\<lambda>x. x \<noteq> CHR '','') (drop 9 (c # cs)) \<noteq> []
      then Some (takeWhile (\<lambda>x. x \<noteq> CHR '','') (drop 9 (c # cs)))
      else matchPlatform cs)"

definition derivePlatformFromDestination :: "string option \<Rightarrow> string option" where
  "derivePlatformFromDestination d =
     (if \<not> truthy d then None
      else case matchPlatform (the d) of
             None \<Rightarrow> None
           | Some m \<Rightarrow> derivePlatformFromToken (Some m))"

definition platformsCompatible :: "string option \<Rightarrow> string option \<Rightarrow> bool" where
  "platformsCompatible sdkPlatform destinationPlatform \<longleftrightarrow>
     (if \<not> truthy sdkPlatform \<or> \<not> truthy destinationPlatform then True
      else sdkPlatform = destinationPlatform)"

subsection \<open>Simulator suggestion\<close>

text \<open>
  \<^verbatim>\<open>simulatorCache\<close> (\<^verbatim>\<open>state/simulator-cache.ts\<close>) is not among the sources. The resolver
  calls two of its methods, which are parameters here: the preferred simulator of a
  project and the listing \<^verbatim>\<open>Object.entries(list.devices)\<close>, runtime by runtime in the
  order of the object. \<open>None\<close> at the outer level of either stands for a call that
  throws; the resolver catches it. The listing is taken to be the same at both calls
  within one resolution.
\<close>

record SimulatorDevice =
  udid :: string
  isAvailable :: bool

record simulatorCache =
  getPreferredSimulator :: "string \<Rightarrow> SimulatorDevice option option"
  getSimulatorList :: "(string \<times> SimulatorDevice list) list option"

definition runtimeMatchesPlatform :: "string \<Rightarrow> string \<Rightarrow> bool" where
  "runtimeMatchesPlatform runtime p \<longleftrightarrow> includes' (toLowerCase runtime) (toLowerCase p)"

definition platformLabelFromRuntime :: "string \<Rightarrow> string option" where
  "platformLabelFromRuntime runtime =
     (let popped = last (split_on (CHR ''.'') runtime);
          lastSegment = (if popped = [] then runtime else popped);
          baseName = hd (split_on (CHR ''-'') lastSegment)
      in if baseName = [] then None else Some (baseName @ '' Simulator''))"

definition buildDestinationFromUdid :: "string \<Rightarrow> string option \<Rightarrow> string" where
  "buildDestinationFromUdid u runtime =
     (let platformLabel = (if truthy runtime then platformLabelFromRuntime (the runtime) else None)
      in if truthy platformLabel then ''platform='' @ the platformLabel @ '',id='' @ u
         else ''id='' @ u)"

definition findRuntimeForUdid :: "(string \<times> SimulatorDevice list) list \<Rightarrow> string \<Rightarrow> string option" where
  "findRuntimeForUdid devices u =
     map_option fst (find (\<lambda>(runtime, ds). list_ex (\<lambda>device. udid device = u) ds) devices)"

fun firstAvailable :: "(string \<times> SimulatorDevice list) list \<Rightarrow> string option \<Rightarrow> string option" where
  "firstAvailable [] platformHint = None"
| "firstAvailable ((runtime, ds) # rest) platformHint =
     (if truthy platformHint \<and> \<not> runtimeMatchesPlatform runtime (the platformHint)
      then firstAvailable rest platformHint
      else case find isAvailable ds of
             Some available \<Rightarrow> Some (buildDestinationFromUdid (udid available) (Some runtime))
           | None \<Rightarrow> firstAvailable rest platformHint)"

definition getSmartSimulatorDestination :: "simulatorCache \<Rightarrow> string \<Rightarrow> string option \<Rightarrow> string option" where
  "getSmartSimulatorDestination sc projectPath platformHint =
     (case getPreferredSimulator sc projectPath of
        None \<Rightarrow> None
      | Some preferredSim \<Rightarrow>
          (case getSimulatorList sc of
             None \<Rightarrow> None
           | Some devices \<Rightarrow>
               (case preferredSim of
                  None \<Rightarrow> firstAvailable devices platformHint
                | Some sim \<Rightarrow>
                    let runtime = findRuntimeForUdid devices (udid sim) in
                    if \<not> truthy platformHint
                       \<or> (truthy runtime \<and> runtimeMatchesPlatform (the runtime) (the platformHint))
                    then Some (buildDestinationFromUdid (udid sim) runtime)
                    else firstAvailable devices platformHint)))"

subsection \<open>The resolver with the platform check (\<^verbatim>\<open>resolveDestination\<close>)\<close>

definition resolveDestination ::
  "simulatorCache \<Rightarrow> string option \<Rightarrow> BuildConfig option \<Rightarrow> string \<Rightarrow> string option \<Rightarrow> string option" where
  "resolveDestination sc explicitDestination preferredConfig projectPath s =
     (if truthy explicitDestination \<and> length (trim (the explicitDestination)) > 0
      then explicitDestination
      else let sdkInfo = deriveSdkInfo s in
        if (case preferredConfig of None \<Rightarrow> False | Some cfg \<Rightarrow> truthy (destination cfg))
           \<and> platformsCompatible (platform sdkInfo)
                (derivePlatformFromDestination (destination (the preferredConfig)))
        then destination (the preferredConfig)
        else if platform sdkInfo = Some ''macos'' then None
        else if truthy (platform sdkInfo) \<and> \<not> isSimulator sdkInfo
                \<and> platform sdkInfo \<noteq> Some ''macos'' then None
        else getSmartSimulatorDestination sc projectPath (platform sdkInfo))"

text \<open>
  The resolver goes past its first rule when the guard
  \<^verbatim>\<open>explicitDestination && explicitDestination.trim().length > 0\<close> fails: no explicit
  destination was given, or a blank one.
\<close>

definition noExplicit :: "string option \<Rightarrow> bool" where
  "noExplicit explicitDestination \<longleftrightarrow>
     \<not> (truthy explicitDestination \<and> length (trim (the explicitDestination)) > 0)"

subsection \<open>The resolver of \<^verbatim>\<open>src/tools/xcodebuild/build.ts\<close> (\<^verbatim>\<open>getSmartDestination\<close>)\<close>

definition getSmartDestination :: "simulatorCache \<Rightarrow> BuildConfig option \<Rightarrow> string \<Rightarrow> string option" where
  "getSmartDestination sc preferredConfig projectPath =
     (if (case preferredConfig of None \<Rightarrow> False | Some cfg \<Rightarrow> truthy (destination cfg))
      then destination (the preferredConfig)
      else case getPreferredSimulator sc projectPath of
             Some (Some preferredSim) \<Rightarrow> Some (''platform=iOS Simulator,id='' @ udid preferredSim)
           | _ \<Rightarrow> None)"

text \<open>\<^verbatim>\<open>const smartDestination = destination || (await getSmartDestination(...))\<close>\<close>

definition smartDestination :: "simulatorCache \<Rightarrow> string option \<Rightarrow> BuildConfig option \<Rightarrow> string \<Rightarrow> string option" where
  "smartDestination sc dest preferredConfig projectPath =
     (if truthy dest then dest else getSmartDestination sc preferredConfig projectPath)"

text \<open>The test the build tool applies to tell a simulator destination.\<close>

definition isSimulatorDestination :: "string \<Rightarrow> bool" where
  "isSimulatorDestination d \<longleftrightarrow> includes' d ''Simulator''"

section \<open>Project preference cache\<close>

text \<open>
  Modelled from the spec: \<^verbatim>\<open>projectCache\<close> (\<^verbatim>\<open>state/project-cache.ts\<close>) is missing from the
  sources; only its two calls in the build tool are there. Per project identity the
  cache holds the preferred configuration and a bounded history of outcomes.
  \<^verbatim>\<open>getPreferredBuildConfig\<close> is "the last successful BuildConfig for that project, or
  none if never recorded"; \<^verbatim>\<open>recordBuildResult\<close> "appends an outcome record to history
  (bounded retention); if \<^verbatim>\<open>outcome.success\<close> is true, replaces the preferred
  configuration with \<^verbatim>\<open>config\<close>", the oldest history entries being dropped first. The
  retention cap is a field, the spec gives no number. The fields of an outcome are those
  the build tool passes (\<^verbatim>\<open>timestamp\<close>, \<^verbatim>\<open>success\<close>, \<^verbatim>\<open>duration\<close>, \<^verbatim>\<open>errorCount\<close>,
  \<^verbatim>\<open>warningCount\<close>, \<^verbatim>\<open>buildSizeBytes\<close>), written with the prefix \<open>metric\<close>.
\<close>

record BuildMetrics =
  metricTimestamp :: int
  metricSuccess :: bool
  metricDuration :: int
  metricErrorCount :: nat
  metricWarningCount :: nat
  metricBuildSizeBytes :: nat

record ProjectInfo =
  preferredConfig :: "BuildConfig option"
  buildHistory :: "BuildMetrics list"

record ProjectCache =
  projects :: "string \<rightharpoonup> ProjectInfo"
  historyCap :: nat

definition getPreferredBuildConfig :: "ProjectCache \<Rightarrow> string \<Rightarrow> BuildConfig option" where
  "getPreferredBuildConfig pc projectPath =
     (case projects pc projectPath of None \<Rightarrow> None | Some info \<Rightarrow> preferredConfig info)"

definition recordBuildResult :: "ProjectCache \<Rightarrow> string \<Rightarrow> BuildConfig \<Rightarrow> BuildMetrics \<Rightarrow> ProjectCache" where
  "recordBuildResult pc projectPath config outcome =
     (let info = (case projects pc projectPath of
                    None \<Rightarrow> \<lparr>preferredConfig = None, buildHistory = []\<rparr>
                  | Some i \<Rightarrow> i);
          h = buildHistory info @ [outcome];
          info' = \<lparr>preferredConfig = (if metricSuccess outcome then Some config
                                       else preferredConfig info),
                   buildHistory = drop (length h - historyCap pc) h\<rparr>
      in pc\<lparr>projects := (projects pc)(projectPath \<mapsto> info')\<rparr>)"

text \<open>
  The call of the build tool: \<^verbatim>\<open>projectCache.recordBuildResult(projectPath, finalConfig,
  { timestamp: new Date(), success: buildSuccess, duration, errorCount, warningCount,
  buildSizeBytes })\<close>, with the clock reading and the measured duration as arguments.
\<close>

definition recordBuild ::
  "ProjectCache \<Rightarrow> string \<Rightarrow> BuildConfig \<Rightarrow> StreamingCommandResult \<Rightarrow> int \<Rightarrow> int \<Rightarrow> ProjectCache" where
  "recordBuild pc projectPath finalConfig result now duration =
     (let summary = extractBuildSummary (stdout result) (CommandResult.stderr result) (code result)
      in recordBuildResult pc projectPath finalConfig
           \<lparr>metricTimestamp = now, metricSuccess = buildSuccess result, metricDuration = duration,
            metricErrorCount = errorCount summary, metricWarningCount = warningCount summary,
            metricBuildSizeBytes = buildSizeBytes summary\<rparr>)"

section \<open>Concrete inputs\<close>

text \<open>Payloads, caches and store sequences on which the theorems below are run.\<close>

definition buildPayload :: "string \<Rightarrow> unit payload" where
  "buildPayload text = \<lparr>tool = ''build'', fullOutput = text, payload.stderr = [],
     payload.exitCode = 0, command = ''xcodebuild build'', metadata = ()\<rparr>"

definition smallCache :: "unit ResponseCache" where
  "smallCache = \<lparr>cache = [], maxAge = 1000 * 60 * 30, maxEntries = 2\<rparr>"

definition threeStores :: "(string \<times> int \<times> int \<times> unit payload) list" where
  "threeStores = [(''id-1'', 1000, 1000, buildPayload ''Build 1''),
                  (''id-2'', 2000, 2001, buildPayload ''Build 2''),
                  (''id-3'', 3000, 3000, buildPayload ''Build 3'')]"

definition sameInstantStores :: "(string \<times> int \<times> int \<times> unit payload) list" where
  "sameInstantStores = [(''id-1'', 1000, 1000, buildPayload ''Build 1''),
                        (''id-2'', 1000, 1000, buildPayload ''Build 2''),
                        (''id-3'', 1000, 1000, buildPayload ''Build 3'')]"

text \<open>
  Options for the executor with a small buffer and one fatal pattern (the build tool
  passes \<^verbatim>\<open>50 * 1024 * 1024\<close> and three such literal patterns), and the output of a
  build that succeeds.
\<close>

definition demoOptions :: StreamingOptions where
  "demoOptions = \<lparr>maxBuffer = 32, fatalPatterns = [literal_ci ''passcode'']\<rparr>"


definition timedOutResult :: StreamingCommandResult where
  "timedOutResult = \<lparr>stdout = ''** BUILD SUCCEEDED **'', CommandResult.stderr = [], code = 0,
     timedOut = True, fatalMatch = None\<rparr>"

text \<open>
  The cached preferences of the repository's tests (\<^verbatim>\<open>xcodebuild-build.test.ts\<close>), a project
  cache, two outcomes, and a simulator cache that knows no simulator.
\<close>

definition cachedIosConfig :: BuildConfig where
  "cachedIosConfig = \<lparr>scheme = ''SpaceTime'', configuration = ''Debug'',
     destination = Some ''platform=iOS Simulator,id=CACHED'', sdk = None, derivedDataPath = None\<rparr>"

definition cachedTvConfig :: BuildConfig where
  "cachedTvConfig = \<lparr>scheme = ''SpaceTime'', configuration = ''Release'',
     destination = Some ''platform=tvOS Simulator,id=TV-1'', sdk = None, derivedDataPath = None\<rparr>"

definition emptyProjectCache :: ProjectCache where
  "emptyProjectCache = \<lparr>projects = Map.empty, historyCap = 10\<rparr>"

definition goodOutcome :: BuildMetrics where
  "goodOutcome = \<lparr>metricTimestamp = 1000, metricSuccess = True, metricDuration = 42000,
     metricErrorCount = 0, metricWarningCount = 1, metricBuildSizeBytes = 2048\<rparr>"

definition badOutcome :: BuildMetrics where
  "badOutcome = \<lparr>metricTimestamp = 2000, metricSuccess = False, metricDuration = 55000,
     metricErrorCount = 3, metricWarningCount = 0, metricBuildSizeBytes = 512\<rparr>"

definition noSimulators :: simulatorCache where
  "noSimulators = \<lparr>getPreferredSimulator = (\<lambda>projectPath. Some None), getSimulatorList = Some []\<rparr>"

text \<open>
  The result of a run in which a fatal pattern matched and the timer fired before the
  process closed, and the reading of "exactly one of normal exit, fatal match, timeout".
\<close>

definition bothResult :: StreamingCommandResult where
  "bothResult = \<lparr>stdout = [], CommandResult.stderr = ''passcode protected'', code = 0,
     timedOut = True, fatalMatch = Some ''passcode''\<rparr>"

definition exactlyOneEnding :: "StreamingCommandResult \<Rightarrow> bool" where
  "exactlyOneEnding r \<longleftrightarrow>
     length (filter (\<lambda>b. b) [isNormalExit r, isFatalMatch r, isTimeout r]) = 1"

section \<open>Facts about the response cache\<close>

lemma fold_delete_filter:
  "fold (\<lambda>(k, cached). AList.delete k) rs es = filter (\<lambda>p. fst p \<notin> fst ` set rs) es"
proof (induction rs arbitrary: es)
  case Nil
  then show ?case by simp
next
  case (Cons r rs)
  obtain k v where r: "r = (k, v)" by (cases r)
  have "fold (\<lambda>(k, cached). AList.delete k) (r # rs) es
        = filter (\<lambda>p. fst p \<notin> fst ` set rs) (AList.delete k es)"
    using Cons.IH[of "AList.delete k es"] by (simp add: r)
  also have "\<dots> = filter (\<lambda>p. fst p \<notin> fst ` set (r # rs)) es"
    by (auto simp: r AList.delete_eq intro: filter_cong)
  finally show ?case .
qed

lemma insort_key_append_last:
  "f y \<le> f x \<Longrightarrow> insort_key f y (zs @ [x]) = insort_key f y zs @ [x]"
  by (induction zs) auto

lemma sort_key_append_last:
  "\<forall>y \<in> set ys. f y \<le> f x \<Longrightarrow> sort_key f (ys @ [x]) = sort_key f ys @ [x]"
  by (induction ys) (auto simp: insort_key_append_last)

lemma filter_keys_take_drop:
  assumes "distinct (map fst es)"
  shows "filter (\<lambda>p. fst p \<notin> fst ` set (take m es)) es = drop m es"
proof -
  let ?P = "\<lambda>p. fst p \<notin> fst ` set (take m es)"
  have "distinct (map fst (take m es @ drop m es))" using assms by simp
  then have disj: "fst ` set (take m es) \<inter> fst ` set (drop m es) = {}"
    by (simp only: map_append distinct_append set_map)
  have a: "filter ?P (take m es) = []"
    by (auto simp: filter_empty_conv)
  have b: "filter ?P (drop m es) = drop m es"
    using disj by (auto simp: filter_id_conv)
  have "filter ?P es = filter ?P (take m es @ drop m es)" by simp
  also have "\<dots> = drop m es" unfolding filter_append a b by simp
  finally show ?thesis .
qed

lemma update_fresh: "k \<notin> fst ` set al \<Longrightarrow> AList.update k v al = al @ [(k, v)]"
  by (induction al) auto

lemma cache_cleanup:
  "cache (cleanup c now) =
     filter (\<lambda>p. fst p \<notin> fst ` set (toRemove (maxEntries c) (purge c now))) (purge c now)"
  by (simp add: cleanup_def Let_def fold_delete_filter toRemove_def)

lemma cleanup_fields [simp]:
  "maxAge (cleanup c now) = maxAge c" "maxEntries (cleanup c now) = maxEntries c"
  by (simp_all add: cleanup_def Let_def)

lemma store_fields [simp]:
  "fst (store c uuid t0 t1 d) = uuid"
  "maxAge (snd (store c uuid t0 t1 d)) = maxAge c"
  "maxEntries (snd (store c uuid t0 t1 d)) = maxEntries c"
  by (simp_all add: store_def Let_def)

lemma store_get_general:
  assumes fresh: "uuid \<notin> fst ` set (cache c)"
    and mono: "\<forall>p \<in> set (cache c). timestamp (snd p) \<le> t0"
    and live1: "t1 - t0 \<le> maxAge c"
    and live2: "t2 - t0 \<le> maxAge c"
    and cap: "0 < maxEntries c"
  shows "get (snd (store c uuid t0 t1 d)) uuid t2
         = (Some (payload.extend d (CachedResponse.fields uuid t0)), snd (store c uuid t0 t1 d))"
proof -
  let ?new = "payload.extend d (CachedResponse.fields uuid t0)"
  let ?c1 = "c\<lparr>cache := AList.update uuid ?new (cache c)\<rparr>"
  let ?f = "\<lambda>(k, cached). timestamp cached"
  define p0 where "p0 = filter (\<lambda>(k, cached). \<not> expired c t1 cached) (cache c)"
  have ts: "timestamp ?new = t0" by (simp add: payload.defs CachedResponse.defs)
  have p: "purge ?c1 t1 = p0 @ [(uuid, ?new)]"
    using live1 fresh by (simp add: purge_def update_fresh expired_def ts p0_def)
  have keys0: "fst ` set p0 \<subseteq> fst ` set (cache c)" by (auto simp: p0_def)
  have "\<forall>y \<in> set p0. ?f y \<le> ?f (uuid, ?new)"
    using mono by (auto simp: p0_def ts)
  then have srt: "sort_key ?f (p0 @ [(uuid, ?new)]) = sort_key ?f p0 @ [(uuid, ?new)]"
    by (rule sort_key_append_last)
  have rm: "toRemove (maxEntries c) (p0 @ [(uuid, ?new)])
            = take (Suc (length p0) - maxEntries c) (sort_key ?f p0)"
    using cap by (simp add: toRemove_def srt)
  have "set (toRemove (maxEntries c) (p0 @ [(uuid, ?new)])) \<subseteq> set p0"
    unfolding rm using set_take_subset[of _ "sort_key ?f p0"] by simp
  then have notin: "uuid \<notin> fst ` set (toRemove (maxEntries c) (p0 @ [(uuid, ?new)]))"
    using keys0 fresh by blast
  have c': "cache (snd (store c uuid t0 t1 d))
        = filter (\<lambda>p. fst p \<notin> fst ` set (toRemove (maxEntries c) (p0 @ [(uuid, ?new)]))) p0 @ [(uuid, ?new)]"
    using notin by (simp add: store_def Let_def cache_cleanup p)
  have "uuid \<notin> fst ` set (filter (\<lambda>p. fst p \<notin> fst ` set (toRemove (maxEntries c) (p0 @ [(uuid, ?new)]))) p0)"
    using keys0 fresh by auto
  then have look: "map_of (cache (snd (store c uuid t0 t1 d))) uuid = Some ?new"
    unfolding c' by (simp add: map_add_def map_of_eq_None_iff[THEN iffD2])
  show ?thesis
    using live2 by (simp add: get_def look expired_def ts)
qed

lemma sorted_take_drop_le:
  assumes "sorted (map f s)" "x \<in> set (take m s)" "y \<in> set (drop m s)"
  shows "f x \<le> f y"
proof -
  have "sorted (map f (take m s) @ map f (drop m s))"
    using assms(1) by (simp flip: map_append)
  then show ?thesis using assms(2,3) by (auto simp: sorted_append)
qed

lemma sorted_map_take: "sorted (map f s) \<Longrightarrow> sorted (map f (take m s))"
proof -
  assume "sorted (map f s)"
  then have "sorted (map f (take m s) @ map f (drop m s))" by (simp flip: map_append)
  then show ?thesis by (simp add: sorted_append)
qed



lemma store_sorted_step:
  assumes srt: "sorted (map (\<lambda>p. timestamp (snd p)) (cache c))"
    and mono: "\<forall>p \<in> set (cache c). timestamp (snd p) \<le> t0"
    and dist: "distinct (map fst (cache c))"
    and fresh: "uuid \<notin> fst ` set (cache c)"
    and live: "\<forall>p \<in> set (cache c). t1 - timestamp (snd p) \<le> maxAge c"
    and live1: "t1 - t0 \<le> maxAge c"
  shows "cache (snd (store c uuid t0 t1 d))
         = drop (Suc (length (cache c)) - maxEntries c)
             (cache c @ [(uuid, payload.extend d (CachedResponse.fields uuid t0))])"
proof -
  let ?new = "payload.extend d (CachedResponse.fields uuid t0)"
  let ?ins = "cache c @ [(uuid, ?new)]"
  let ?c1 = "c\<lparr>cache := AList.update uuid ?new (cache c)\<rparr>"
  let ?f = "\<lambda>(k, cached). timestamp cached"
  have ts: "timestamp ?new = t0" by (simp add: payload.defs CachedResponse.defs)
  have p: "purge ?c1 t1 = ?ins"
    using live live1 fresh by (auto simp: purge_def update_fresh expired_def ts filter_id_conv)
  have "sorted (map (\<lambda>p. timestamp (snd p)) ?ins)"
    using srt mono by (auto simp: sorted_append ts)
  then have "sorted (map ?f ?ins)" by (simp add: case_prod_unfold)
  then have s: "sort_key ?f ?ins = ?ins" by (rule sort_key_id_if_sorted)
  have dins: "distinct (map fst ?ins)" using dist fresh by simp
  have "cache (snd (store c uuid t0 t1 d))
        = filter (\<lambda>p. fst p \<notin> fst ` set (take (length ?ins - maxEntries c) ?ins)) ?ins"
    by (simp only: store_def Let_def snd_conv cache_cleanup p toRemove_def s)
       simp
  also have "\<dots> = drop (length ?ins - maxEntries c) ?ins"
    using dins by (rule filter_keys_take_drop)
  finally show ?thesis by simp
qed

lemma stored_simps [simp]:
  "fst (stored x) = fst x"
  "timestamp (snd (stored x)) = fst (snd x)"
  "tool (snd (stored x)) = tool (snd (snd (snd x)))"
  by (cases x; simp add: stored_def payload.defs CachedResponse.defs)+

lemma store_all_sorted:
  assumes "sorted (map (\<lambda>p. timestamp (snd p)) (cache c) @ map (\<lambda>x. fst (snd x)) items)"
    and "distinct (map fst (cache c) @ map fst items)"
    and "\<forall>x \<in> set items. \<forall>p \<in> set (cache c). fst (snd (snd x)) - timestamp (snd p) \<le> maxAge c"
    and "\<forall>x \<in> set items. \<forall>y \<in> set items. fst (snd (snd x)) - fst (snd y) \<le> maxAge c"
    and "length (cache c) \<le> maxEntries c"
  shows "cache (store_all c items)
         = drop (length (cache c) + length items - maxEntries c) (cache c @ map stored items)"
  using assms
proof (induction items arbitrary: c)
  case Nil
  then show ?case by simp
next
  case (Cons x rest)
  obtain uuid t0 t1 d where x: "x = (uuid, t0, t1, d)" by (cases x)
  let ?new = "(uuid, payload.extend d (CachedResponse.fields uuid t0))"
  let ?c1 = "snd (store c uuid t0 t1 d)"
  let ?k = "Suc (length (cache c)) - maxEntries c"
  have sx: "stored x = ?new" by (simp add: x stored_def)
  have step: "cache ?c1 = drop ?k (cache c @ [?new])"
  proof (rule store_sorted_step)
    show "sorted (map (\<lambda>p. timestamp (snd p)) (cache c))"
      using Cons.prems(1) by (simp add: sorted_append)
    show "\<forall>p \<in> set (cache c). timestamp (snd p) \<le> t0"
      using Cons.prems(1) by (auto simp: sorted_append x)
    show "distinct (map fst (cache c))" using Cons.prems(2) by simp
    show "uuid \<notin> fst ` set (cache c)" using Cons.prems(2) by (auto simp: x)
    show "\<forall>p \<in> set (cache c). t1 - timestamp (snd p) \<le> maxAge c"
      using Cons.prems(3) by (auto simp: x)
    show "t1 - t0 \<le> maxAge c" using Cons.prems(4) by (auto simp: x)
  qed
  have sub: "set (cache ?c1) \<subseteq> set (cache c) \<union> {?new}"
    unfolding step using set_drop_subset[of ?k "cache c @ [?new]"] by auto
  have tsnew: "timestamp (payload.extend d (CachedResponse.fields uuid t0)) = t0"
    by (simp add: payload.defs CachedResponse.defs)
  have srt_all: "sorted (map (\<lambda>p. timestamp (snd p)) (cache c @ [?new]) @ map (\<lambda>x. fst (snd x)) rest)"
    using Cons.prems(1) by (simp add: x tsnew)
  have "sorted (map (\<lambda>p. timestamp (snd p)) (drop ?k (cache c @ [?new])) @ map (\<lambda>x. fst (snd x)) rest)"
  proof -
    have "sorted (map (\<lambda>p. timestamp (snd p)) (take ?k (cache c @ [?new]))
              @ (map (\<lambda>p. timestamp (snd p)) (drop ?k (cache c @ [?new])) @ map (\<lambda>x. fst (snd x)) rest))"
      using srt_all by (simp only: append_assoc[symmetric] map_append[symmetric] append_take_drop_id)
    then show ?thesis unfolding sorted_append by blast
  qed
  then have p1: "sorted (map (\<lambda>p. timestamp (snd p)) (cache ?c1) @ map (\<lambda>x. fst (snd x)) rest)"
    by (simp only: step)
  have "distinct (map fst (cache c @ [?new]) @ map fst rest)"
    using Cons.prems(2) by (simp add: x)
  then have "distinct (map fst (take ?k (cache c @ [?new])) @ (map fst (drop ?k (cache c @ [?new])) @ map fst rest))"
    by (simp only: append_assoc[symmetric] map_append[symmetric] append_take_drop_id)
  then have p2: "distinct (map fst (cache ?c1) @ map fst rest)"
    by (simp only: step distinct_append)
  have p3: "\<forall>y \<in> set rest. \<forall>p \<in> set (cache ?c1). fst (snd (snd y)) - timestamp (snd p) \<le> maxAge ?c1"
  proof (intro ballI)
    fix y p assume y: "y \<in> set rest" and p: "p \<in> set (cache ?c1)"
    from p sub have "p \<in> set (cache c) \<or> p = ?new" by auto
    then show "fst (snd (snd y)) - timestamp (snd p) \<le> maxAge ?c1"
    proof
      assume "p \<in> set (cache c)"
      then show ?thesis using Cons.prems(3) y by simp
    next
      assume "p = ?new"
      then show ?thesis using Cons.prems(4) y by (simp add: x tsnew)
    qed
  qed
  have p4: "\<forall>a \<in> set rest. \<forall>b \<in> set rest. fst (snd (snd a)) - fst (snd b) \<le> maxAge ?c1"
    using Cons.prems(4) by simp
  have len1: "length (cache ?c1) = Suc (length (cache c)) - ?k" by (simp add: step)
  then have p5: "length (cache ?c1) \<le> maxEntries ?c1" using Cons.prems(5) by simp
  have "cache (store_all c (x # rest)) = cache (store_all ?c1 rest)" by (simp add: x)
  also have "\<dots> = drop (length (cache ?c1) + length rest - maxEntries ?c1) (cache ?c1 @ map stored rest)"
    using p1 p2 p3 p4 p5 by (rule Cons.IH)
  also have "cache ?c1 @ map stored rest = drop ?k (cache c @ map stored (x # rest))"
  proof -
    have "?k - length (cache c @ [?new]) = 0" by simp
    then have "drop ?k ((cache c @ [?new]) @ map stored rest)
          = drop ?k (cache c @ [?new]) @ map stored rest"
      by (simp only: drop_append drop_0)
    then show ?thesis by (simp add: step sx)
  qed
  also have "drop (length (cache ?c1) + length rest - maxEntries ?c1) (drop ?k (cache c @ map stored (x # rest)))
             = drop (length (cache c) + length (x # rest) - maxEntries c) (cache c @ map stored (x # rest))"
  proof -
    have "length (cache ?c1) + length rest - maxEntries ?c1 + ?k
          = length (cache c) + length (x # rest) - maxEntries c"
      using Cons.prems(5) len1 by simp
    then show ?thesis by (simp only: drop_drop)
  qed
  finally show ?case .
qed

lemma store_is_cleanup:
  "snd (store c uuid t0 t1 d)
   = cleanup (c\<lparr>cache := AList.update uuid (payload.extend d (CachedResponse.fields uuid t0)) (cache c)\<rparr>) t1"
  by (simp add: store_def Let_def)

lemma store_all_from_empty:
  assumes "cache c = []"
    and "distinct (map fst items)"
    and "sorted (map (\<lambda>x. fst (snd x)) items)"
    and "\<forall>x \<in> set items. \<forall>y \<in> set items. fst (snd (snd x)) - fst (snd y) \<le> maxAge c"
  shows "cache (store_all c items) = drop (length items - maxEntries c) (map stored items)"
  using store_all_sorted[of c items] assms by simp

text \<open>
  Two properties that \<open>store\<close> hands on: the keys stay distinct, and no timestamp lies
  after the time of the store when none did before. Every cache built from the empty
  one by stores at clock readings that do not decrease has them.
\<close>

lemma set_update_subset: "set (AList.update k v al) \<subseteq> set al \<union> {(k, v)}"
  by (induction al) auto

lemma store_keeps_invariant:
  assumes "distinct (map fst (cache c))"
    and "\<forall>p \<in> set (cache c). timestamp (snd p) \<le> t0"
  shows "distinct (map fst (cache (snd (store c uuid t0 t1 d))))"
    and "\<forall>p \<in> set (cache (snd (store c uuid t0 t1 d))). timestamp (snd p) \<le> t0"
proof -
  let ?new = "payload.extend d (CachedResponse.fields uuid t0)"
  let ?ins = "c\<lparr>cache := AList.update uuid ?new (cache c)\<rparr>"
  have ts: "timestamp ?new = t0" by (simp add: payload.defs CachedResponse.defs)
  have di: "distinct (map fst (cache ?ins))" using assms(1) by (simp add: distinct_update)
  then have dp: "distinct (map fst (purge ?ins t1))"
    unfolding purge_def by (rule distinct_map_filter)
  show "distinct (map fst (cache (snd (store c uuid t0 t1 d))))"
    unfolding store_is_cleanup cache_cleanup using dp by (rule distinct_map_filter)
  have "set (cache (snd (store c uuid t0 t1 d))) \<subseteq> set (cache ?ins)"
    unfolding store_is_cleanup cache_cleanup purge_def by auto
  moreover have "set (cache ?ins) \<subseteq> set (cache c) \<union> {(uuid, ?new)}"
    using set_update_subset[of uuid ?new "cache c"] by simp
  ultimately show "\<forall>p \<in> set (cache (snd (store c uuid t0 t1 d))). timestamp (snd p) \<le> t0"
    using assms(2) ts by auto
qed

section \<open>Store, then get\<close>

text \<open>
  C1. \<open>get\<close> with the handle that \<open>store\<close> has just returned, at the very clock
  reading of the store and with nothing in between, returns an entry whose \<open>tool\<close>,
  \<open>fullOutput\<close>, \<open>stderr\<close>, \<open>exitCode\<close>, \<open>command\<close> and \<open>metadata\<close> are those of the
  payload, whose \<open>id\<close> is the generated handle and whose timestamp is the time of the
  store. The hypotheses are what every cache built by \<open>store\<close> enjoys: the generated
  handle is not yet a key, no cached timestamp lies in the future, and the two limits
  are the sensible ones (\<open>maxAge\<close> not negative, room for at least one entry).
\<close>

theorem store_then_get_immediately:
  assumes "uuid \<notin> fst ` set (cache c)"
    and "\<forall>p \<in> set (cache c). timestamp (snd p) \<le> t"
    and "0 \<le> maxAge c"
    and "0 < maxEntries c"
  shows "fst (store c uuid t t d) = uuid
     \<and> (\<exists>e. fst (get (snd (store c uuid t t d)) uuid t) = Some e
          \<and> tool e = tool d \<and> fullOutput e = fullOutput d
          \<and> payload.stderr e = payload.stderr d \<and> payload.exitCode e = payload.exitCode d
          \<and> command e = command d \<and> metadata e = metadata d
          \<and> id' e = uuid \<and> timestamp e = t)"
proof -
  have "get (snd (store c uuid t t d)) uuid t
        = (Some (payload.extend d (CachedResponse.fields uuid t)), snd (store c uuid t t d))"
    using assms by (intro store_get_general) simp_all
  then show ?thesis by (simp add: payload.defs CachedResponse.defs)
qed

theorem store_then_get_immediately_witness:
  "fst (store smallCache ''id-1'' 1000 1000 (buildPayload ''Build 1'')) = ''id-1''
   \<and> (\<exists>e. fst (get (snd (store smallCache ''id-1'' 1000 1000 (buildPayload ''Build 1''))) ''id-1'' 1000) = Some e
        \<and> tool e = ''build'' \<and> fullOutput e = ''Build 1''
        \<and> payload.stderr e = [] \<and> payload.exitCode e = 0
        \<and> command e = ''xcodebuild build'' \<and> metadata e = ()
        \<and> id' e = ''id-1'' \<and> timestamp e = 1000)"
  using store_then_get_immediately[of "''id-1''" smallCache 1000 "buildPayload ''Build 1''"]
  by (simp add: smallCache_def buildPayload_def)

section \<open>Lazy expiry on lookup\<close>

text \<open>
  C2. When the entry cached under a handle is older than \<open>maxAge\<close> (its age exceeds it),
  \<open>get\<close> answers "not found", the handle is absent afterwards and every other handle is
  as before; and whatever \<open>get\<close> returns is not expired.
\<close>

theorem get_expired_removed:
  "(map_of (cache c) h = Some e \<and> now - timestamp e > maxAge c \<longrightarrow>
      fst (get c h now) = None
      \<and> map_of (cache (snd (get c h now))) h = None
      \<and> h \<notin> fst ` set (cache (snd (get c h now)))
      \<and> (\<forall>h'. h' \<noteq> h \<longrightarrow> map_of (cache (snd (get c h now))) h' = map_of (cache c) h'))
   \<and> (\<forall>r. fst (get c h now) = Some r \<longrightarrow> \<not> (now - timestamp r > maxAge c))"
  by (auto simp: get_def expired_def delete_conv' delete_notin_dom split: option.splits)

theorem get_expired_removed_witness:
  "fst (get (store_all smallCache threeStores) ''id-2'' 1802001) = None
   \<and> map_of (cache (snd (get (store_all smallCache threeStores) ''id-2'' 1802001))) ''id-2'' = None
   \<and> map_of (cache (snd (get (store_all smallCache threeStores) ''id-2'' 1802001))) ''id-3''
       = map_of (cache (store_all smallCache threeStores)) ''id-3''"
proof -
  have c: "map_of (cache (store_all smallCache threeStores)) ''id-2''
           = Some (snd (stored (''id-2'', 2000, 2001, buildPayload ''Build 2'')))"
    by (simp add: smallCache_def threeStores_def store_def cleanup_def purge_def toRemove_def
        expired_def stored_def Let_def payload.defs CachedResponse.defs)
  have m: "maxAge (store_all smallCache threeStores) = 1800000"
    by (simp add: smallCache_def threeStores_def)
  show ?thesis
    using get_expired_removed[of "store_all smallCache threeStores" "''id-2''"
        "snd (stored (''id-2'', 2000, 2001, buildPayload ''Build 2''))" 1802001] c m
    by simp
qed

section \<open>Cleanup on every store\<close>



section \<open>Recent entries of a tool\<close>

lemma slice0_take: "\<exists>k. slice0 n xs = take k xs"
  by (auto simp: slice0_def)

lemma recent_subset:
  "set (getRecentByTool c tn lim) \<subseteq> {e \<in> snd ` set (cache c). tool e = tn}"
proof -
  obtain k where "getRecentByTool c tn lim
      = take k (sort_key (\<lambda>cached. - timestamp cached) (filter (\<lambda>cached. tool cached = tn) (map snd (cache c))))"
    unfolding getRecentByTool_def using slice0_take by blast
  then show ?thesis
    using set_take_subset[of k "sort_key (\<lambda>cached. - timestamp cached) (filter (\<lambda>cached. tool cached = tn) (map snd (cache c)))"]
    by auto
qed

lemma recent_sorted:
  "sorted (map (\<lambda>e. - timestamp e) (getRecentByTool c tn lim))"
proof -
  obtain k where "getRecentByTool c tn lim
      = take k (sort_key (\<lambda>cached. - timestamp cached) (filter (\<lambda>cached. tool cached = tn) (map snd (cache c))))"
    unfolding getRecentByTool_def using slice0_take by blast
  then show ?thesis by (simp add: sorted_map_take)
qed

lemma recent_length:
  "0 \<le> n \<Longrightarrow> length (getRecentByTool c tn (Some n))
     = min (nat n) (length (filter (\<lambda>e. tool e = tn) (map snd (cache c))))"
  "length (getRecentByTool c tn None) = min 5 (length (filter (\<lambda>e. tool e = tn) (map snd (cache c))))"
  by (simp_all add: getRecentByTool_def slice0_def min_def)

lemma recent_newest:
  assumes x: "x \<in> {e \<in> snd ` set (cache c). tool e = tn} - set (getRecentByTool c tn lim)"
    and y: "y \<in> set (getRecentByTool c tn lim)"
  shows "timestamp x \<le> timestamp y"
proof -
  let ?s = "sort_key (\<lambda>cached. - timestamp cached) (filter (\<lambda>cached. tool cached = tn) (map snd (cache c)))"
  obtain k where k: "getRecentByTool c tn lim = take k ?s"
    unfolding getRecentByTool_def using slice0_take by blast
  have "x \<in> set ?s" using x by auto
  moreover have "set ?s = set (take k ?s) \<union> set (drop k ?s)"
    by (metis append_take_drop_id set_append)
  ultimately have "x \<in> set (take k ?s) \<union> set (drop k ?s)" by blast
  then have xd: "x \<in> set (drop k ?s)" using x k by auto
  have yt: "y \<in> set (take k ?s)" using y k by simp
  have "sorted (map (\<lambda>cached. - timestamp cached) ?s)" by simp
  then have "- timestamp y \<le> - timestamp x" using yt xd by (rule sorted_take_drop_le)
  then show ?thesis by simp
qed

lemma recent_ties:
  "prefix (filter (\<lambda>e. timestamp e = t) (getRecentByTool c tn lim))
          (filter (\<lambda>e. timestamp e = t) (filter (\<lambda>e. tool e = tn) (map snd (cache c))))"
proof -
  let ?xs = "filter (\<lambda>cached. tool cached = tn) (map snd (cache c))"
  let ?s = "sort_key (\<lambda>cached. - timestamp cached) ?xs"
  obtain k where k: "getRecentByTool c tn lim = take k ?s"
    unfolding getRecentByTool_def using slice0_take by blast
  have "filter (\<lambda>e. - timestamp e = - t) ?s = filter (\<lambda>e. - timestamp e = - t) ?xs"
    by (rule sort_key_stable)
  then have st: "filter (\<lambda>e. timestamp e = t) ?s = filter (\<lambda>e. timestamp e = t) ?xs" by simp
  have "filter (\<lambda>e. timestamp e = t) ?s
        = filter (\<lambda>e. timestamp e = t) (take k ?s) @ filter (\<lambda>e. timestamp e = t) (drop k ?s)"
    by (simp flip: filter_append)
  then have "prefix (filter (\<lambda>e. timestamp e = t) (take k ?s)) (filter (\<lambda>e. timestamp e = t) ?s)"
    by (simp add: prefix_def)
  then show ?thesis by (simp only: k st)
qed

lemma recent_three:
  assumes "distinct [u1, u2, u3]" "t1 < t2" "t2 < t3"
    and "\<forall>a \<in> {t1', t2', t3'}. \<forall>b \<in> {t1, t2, t3}. a - b \<le> 1800000"
    and "tool d1 = ''build''" "tool d2 = ''build''" "tool d3 = ''build''"
  shows "getRecentByTool (store_all new_ResponseCache [(u1, t1, t1', d1), (u2, t2, t2', d2), (u3, t3, t3', d3)])
            ''build'' (Some 2)
         = [snd (stored (u3, t3, t3', d3)), snd (stored (u2, t2, t2', d2))]"
proof -
  let ?items = "[(u1, t1, t1', d1), (u2, t2, t2', d2), (u3, t3, t3', d3)]"
  have "cache (store_all (new_ResponseCache :: 'a ResponseCache) ?items)
        = drop (length ?items - maxEntries (new_ResponseCache :: 'a ResponseCache)) (map stored ?items)"
    using assms by (intro store_all_from_empty) (auto simp: new_ResponseCache_def)
  then have c: "cache (store_all (new_ResponseCache :: 'a ResponseCache) ?items) = map stored ?items"
    by (simp add: new_ResponseCache_def)
  show ?thesis
    unfolding getRecentByTool_def c using assms(2,3,5,6,7) by (simp add: slice0_def)
qed

lemma filter_unexpired:
  assumes "\<forall>e \<in> snd ` set (cache c). tool e = tn \<longrightarrow> \<not> expired c now e"
  shows "filter (\<lambda>e. tool e = tn \<and> \<not> expired c now e) (map snd (cache c))
         = filter (\<lambda>e. tool e = tn) (map snd (cache c))"
  using assms by (intro filter_cong) auto

text \<open>
  C8, as the code has it. \<open>getRecentByTool\<close> returns cached entries of the tool only, in
  descending order of their timestamps, entries of one timestamp in the order in which
  they were stored. Whenever no cached entry of the tool is expired, the result is the
  non-expired entries of the tool so ordered and cut to the limit (five without one):
  with a limit \<open>n \<ge> 0\<close> it has \<open>n\<close> of them or all there are, and no entry left out is
  more recent than one returned. After three responses for the tool \<^verbatim>\<open>build\<close> stored
  into a fresh cache at strictly increasing times, none expired at a cleanup or at the
  call, the call with limit 2 returns the last two stored, the newest first.
\<close>

theorem getRecentByTool_by_recency:
  "set (getRecentByTool c tn lim) \<subseteq> {e \<in> snd ` set (cache c). tool e = tn}
   \<and> sorted (map (\<lambda>e. - timestamp e) (getRecentByTool c tn lim))
   \<and> (\<forall>t. prefix (filter (\<lambda>e. timestamp e = t) (getRecentByTool c tn lim))
                  (filter (\<lambda>e. timestamp e = t) (filter (\<lambda>e. tool e = tn) (map snd (cache c)))))
   \<and> ((\<forall>e \<in> snd ` set (cache c). tool e = tn \<longrightarrow> \<not> expired c now e) \<longrightarrow>
        getRecentByTool c tn lim
          = slice0 (case lim of None \<Rightarrow> 5 | Some n \<Rightarrow> n)
              (sort_key (\<lambda>e. - timestamp e)
                 (filter (\<lambda>e. tool e = tn \<and> \<not> expired c now e) (map snd (cache c))))
        \<and> (\<forall>n\<ge>0. length (getRecentByTool c tn (Some n))
               = min (nat n)
                   (length (filter (\<lambda>e. tool e = tn \<and> \<not> expired c now e) (map snd (cache c)))))
        \<and> length (getRecentByTool c tn None)
            = min 5 (length (filter (\<lambda>e. tool e = tn \<and> \<not> expired c now e) (map snd (cache c))))
        \<and> (\<forall>x \<in> {e \<in> snd ` set (cache c). tool e = tn \<and> \<not> expired c now e}
                    - set (getRecentByTool c tn lim).
              \<forall>y \<in> set (getRecentByTool c tn lim). timestamp x \<le> timestamp y))
   \<and> (distinct [u1, u2, u3] \<and> t1 < t2 \<and> t2 < t3
        \<and> (\<forall>a \<in> {t1', t2', t3', t}. \<forall>b \<in> {t1, t2, t3}. a - b \<le> 1800000)
        \<and> tool d1 = ''build'' \<and> tool d2 = ''build'' \<and> tool d3 = ''build''
      \<longrightarrow> getRecentByTool
            (store_all new_ResponseCache [(u1, t1, t1', d1), (u2, t2, t2', d2), (u3, t3, t3', d3)])
            ''build'' (Some 2)
          = [snd (stored (u3, t3, t3', d3)), snd (stored (u2, t2, t2', d2))])"
proof -
  have a: "set (getRecentByTool c tn lim) \<subseteq> {e \<in> snd ` set (cache c). tool e = tn}"
    by (rule recent_subset)
  have b: "sorted (map (\<lambda>e. - timestamp e) (getRecentByTool c tn lim))"
    by (rule recent_sorted)
  have ties: "\<forall>t. prefix (filter (\<lambda>e. timestamp e = t) (getRecentByTool c tn lim))
                  (filter (\<lambda>e. timestamp e = t) (filter (\<lambda>e. tool e = tn) (map snd (cache c))))"
    using recent_ties by blast
  have live: "(\<forall>e \<in> snd ` set (cache c). tool e = tn \<longrightarrow> \<not> expired c now e) \<longrightarrow>
        getRecentByTool c tn lim
          = slice0 (case lim of None \<Rightarrow> 5 | Some n \<Rightarrow> n)
              (sort_key (\<lambda>e. - timestamp e)
                 (filter (\<lambda>e. tool e = tn \<and> \<not> expired c now e) (map snd (cache c))))
        \<and> (\<forall>n\<ge>0. length (getRecentByTool c tn (Some n))
               = min (nat n)
                   (length (filter (\<lambda>e. tool e = tn \<and> \<not> expired c now e) (map snd (cache c)))))
        \<and> length (getRecentByTool c tn None)
            = min 5 (length (filter (\<lambda>e. tool e = tn \<and> \<not> expired c now e) (map snd (cache c))))
        \<and> (\<forall>x \<in> {e \<in> snd ` set (cache c). tool e = tn \<and> \<not> expired c now e}
                    - set (getRecentByTool c tn lim).
              \<forall>y \<in> set (getRecentByTool c tn lim). timestamp x \<le> timestamp y)"
  proof
    assume h: "\<forall>e \<in> snd ` set (cache c). tool e = tn \<longrightarrow> \<not> expired c now e"
    note f = filter_unexpired[OF h]
    have 1: "getRecentByTool c tn lim
          = slice0 (case lim of None \<Rightarrow> 5 | Some n \<Rightarrow> n)
              (sort_key (\<lambda>e. - timestamp e)
                 (filter (\<lambda>e. tool e = tn \<and> \<not> expired c now e) (map snd (cache c))))"
      unfolding f by (simp add: getRecentByTool_def)
    have 2: "\<forall>n\<ge>0. length (getRecentByTool c tn (Some n))
               = min (nat n)
                   (length (filter (\<lambda>e. tool e = tn \<and> \<not> expired c now e) (map snd (cache c))))"
      unfolding f using recent_length(1) by blast
    have 3: "length (getRecentByTool c tn None)
            = min 5 (length (filter (\<lambda>e. tool e = tn \<and> \<not> expired c now e) (map snd (cache c))))"
      unfolding f by (rule recent_length)
    have 4: "\<forall>x \<in> {e \<in> snd ` set (cache c). tool e = tn \<and> \<not> expired c now e}
                    - set (getRecentByTool c tn lim).
              \<forall>y \<in> set (getRecentByTool c tn lim). timestamp x \<le> timestamp y"
    proof (intro ballI)
      fix x y
      assume x: "x \<in> {e \<in> snd ` set (cache c). tool e = tn \<and> \<not> expired c now e}
                    - set (getRecentByTool c tn lim)"
        and y: "y \<in> set (getRecentByTool c tn lim)"
      from x have "x \<in> {e \<in> snd ` set (cache c). tool e = tn} - set (getRecentByTool c tn lim)"
        by blast
      then show "timestamp x \<le> timestamp y" using y by (rule recent_newest)
    qed
    from 1 2 3 4 show "getRecentByTool c tn lim
          = slice0 (case lim of None \<Rightarrow> 5 | Some n \<Rightarrow> n)
              (sort_key (\<lambda>e. - timestamp e)
                 (filter (\<lambda>e. tool e = tn \<and> \<not> expired c now e) (map snd (cache c))))
        \<and> (\<forall>n\<ge>0. length (getRecentByTool c tn (Some n))
               = min (nat n)
                   (length (filter (\<lambda>e. tool e = tn \<and> \<not> expired c now e) (map snd (cache c)))))
        \<and> length (getRecentByTool c tn None)
            = min 5 (length (filter (\<lambda>e. tool e = tn \<and> \<not> expired c now e) (map snd (cache c))))
        \<and> (\<forall>x \<in> {e \<in> snd ` set (cache c). tool e = tn \<and> \<not> expired c now e}
                    - set (getRecentByTool c tn lim).
              \<forall>y \<in> set (getRecentByTool c tn lim). timestamp x \<le> timestamp y)"
      by (intro conjI)
  qed
  have three: "distinct [u1, u2, u3] \<and> t1 < t2 \<and> t2 < t3
        \<and> (\<forall>a \<in> {t1', t2', t3', t}. \<forall>b \<in> {t1, t2, t3}. a - b \<le> 1800000)
        \<and> tool d1 = ''build'' \<and> tool d2 = ''build'' \<and> tool d3 = ''build''
      \<longrightarrow> getRecentByTool
            (store_all new_ResponseCache [(u1, t1, t1', d1), (u2, t2, t2', d2), (u3, t3, t3', d3)])
            ''build'' (Some 2)
          = [snd (stored (u3, t3, t3', d3)), snd (stored (u2, t2, t2', d2))]"
  proof
    assume h: "distinct [u1, u2, u3] \<and> t1 < t2 \<and> t2 < t3
        \<and> (\<forall>a \<in> {t1', t2', t3', t}. \<forall>b \<in> {t1, t2, t3}. a - b \<le> 1800000)
        \<and> tool d1 = ''build'' \<and> tool d2 = ''build'' \<and> tool d3 = ''build''"
    then have "\<forall>a \<in> {t1', t2', t3'}. \<forall>b \<in> {t1, t2, t3}. a - b \<le> 1800000" by blast
    with h show "getRecentByTool
            (store_all new_ResponseCache [(u1, t1, t1', d1), (u2, t2, t2', d2), (u3, t3, t3', d3)])
            ''build'' (Some 2)
          = [snd (stored (u3, t3, t3', d3)), snd (stored (u2, t2, t2', d2))]"
      by (intro recent_three) blast+
  qed
  from a b ties live three show ?thesis by (intro conjI)
qed

theorem getRecentByTool_by_recency_witness:
  "getRecentByTool (store_all (new_ResponseCache :: unit ResponseCache) threeStores) ''build'' (Some 2)
     = [snd (stored (''id-3'', 3000, 3000, buildPayload ''Build 3'')),
        snd (stored (''id-2'', 2000, 2001, buildPayload ''Build 2''))]
   \<and> length (getRecentByTool (store_all (new_ResponseCache :: unit ResponseCache) threeStores) ''build'' None) = 3"
proof -
  let ?C = "store_all (new_ResponseCache :: unit ResponseCache) threeStores"
  have c: "cache ?C = map stored threeStores"
    by (simp add: new_ResponseCache_def threeStores_def store_def cleanup_def purge_def
        expired_def stored_def Let_def payload.defs CachedResponse.defs)
  have m: "maxAge ?C = 1800000" by (simp add: new_ResponseCache_def threeStores_def)
  note T = getRecentByTool_by_recency[of ?C "''build''" "None" 3000
        "''id-1''" "''id-2''" "''id-3''" 1000 2000 3000 1000 2001 3000 3000
        "buildPayload ''Build 1''" "buildPayload ''Build 2''" "buildPayload ''Build 3''"]
  have prem: "distinct [''id-1'', ''id-2'', ''id-3''] \<and> (1000::int) < 2000 \<and> (2000::int) < 3000
        \<and> (\<forall>a \<in> {1000, 2001, 3000, 3000::int}. \<forall>b \<in> {1000, 2000, 3000}. a - b \<le> 1800000)
        \<and> tool (buildPayload ''Build 1'') = ''build'' \<and> tool (buildPayload ''Build 2'') = ''build''
        \<and> tool (buildPayload ''Build 3'') = ''build''"
    by (simp add: buildPayload_def)
  from T prem have first: "getRecentByTool
            (store_all (new_ResponseCache :: unit ResponseCache)
               [(''id-1'', 1000, 1000, buildPayload ''Build 1''),
                (''id-2'', 2000, 2001, buildPayload ''Build 2''),
                (''id-3'', 3000, 3000, buildPayload ''Build 3'')])
            ''build'' (Some 2)
          = [snd (stored (''id-3'', 3000, 3000, buildPayload ''Build 3'')),
             snd (stored (''id-2'', 2000, 2001, buildPayload ''Build 2''))]"
    by blast
  have live: "\<forall>e \<in> snd ` set (cache ?C). tool e = ''build'' \<longrightarrow> \<not> expired ?C 3000 e"
    unfolding c expired_def m by (simp add: threeStores_def)
  from T live have "length (getRecentByTool ?C ''build'' None)
       = min 5 (length (filter (\<lambda>e. tool e = ''build'' \<and> \<not> expired ?C 3000 e) (map snd (cache ?C))))"
    by blast
  then have second: "length (getRecentByTool ?C ''build'' None) = 3"
    unfolding c expired_def m by (simp add: threeStores_def buildPayload_def)
  from first second show ?thesis by (simp only: threeStores_def)
qed

text \<open>
  The claim as written fails on three responses stored within one millisecond, none of
  them expired: their timestamps are equal, the sort keeps the order of storage, and the
  call with limit 2 returns the first two stored and not the last one.
\<close>

theorem getRecentByTool_same_instant_counterexample:
  "getRecentByTool (store_all (new_ResponseCache :: unit ResponseCache) sameInstantStores) ''build'' (Some 2)
     = [snd (stored (''id-1'', 1000, 1000, buildPayload ''Build 1'')),
        snd (stored (''id-2'', 1000, 1000, buildPayload ''Build 2''))]
   \<and> snd (stored (''id-3'', 1000, 1000, buildPayload ''Build 3''))
       \<notin> set (getRecentByTool (store_all (new_ResponseCache :: unit ResponseCache) sameInstantStores) ''build'' (Some 2))
   \<and> \<not> expired (store_all (new_ResponseCache :: unit ResponseCache) sameInstantStores) 1000
        (snd (stored (''id-1'', 1000, 1000, buildPayload ''Build 1'')))
   \<and> \<not> expired (store_all (new_ResponseCache :: unit ResponseCache) sameInstantStores) 1000
        (snd (stored (''id-2'', 1000, 1000, buildPayload ''Build 2'')))
   \<and> \<not> expired (store_all (new_ResponseCache :: unit ResponseCache) sameInstantStores) 1000
        (snd (stored (''id-3'', 1000, 1000, buildPayload ''Build 3'')))"
  by (simp add: new_ResponseCache_def sameInstantStores_def store_def cleanup_def purge_def
        expired_def stored_def Let_def payload.defs CachedResponse.defs getRecentByTool_def
        slice0_def buildPayload_def)


section \<open>Success and caps of the build summary\<close>






lemma includes_empty [simp]: "includes' s []"
  by (cases s) auto


lemma success_iff_line:
  "success (extractBuildSummary output errText ec)
   \<longleftrightarrow> ec = 0 \<and> (\<exists>line \<in> set (buildLines output errText). isSuccessIndicator line)"
  by (auto simp: extractBuildSummary_def Let_def filter_empty_conv)




section \<open>Runs of the streaming executor\<close>

lemma checkPatterns_frame [simp]:
  "out (checkPatterns opts t s) = out s"
  "err (checkPatterns opts t s) = err s"
  "settled (checkPatterns opts t s) = settled s"
  "timerArmed (checkPatterns opts t s) = timerArmed s"
  "timedOutFlag (checkPatterns opts t s) = timedOutFlag s"
  by (simp_all add: checkPatterns_def split: option.splits)

lemma checkPatterns_fatal:
  "fatal (checkPatterns opts t s) \<noteq> None
   \<longleftrightarrow> fatal s \<noteq> None \<or> firstMatch (fatalPatterns opts) t \<noteq> None"
  by (auto simp: checkPatterns_def truthy_def split: option.splits)

lemma checkPatterns_kills:
  "kills (checkPatterns opts t s)
   = kills s + (if \<not> truthy (fatal s) \<and> firstMatch (fatalPatterns opts) t \<noteq> None then 1 else 0)"
  by (auto simp: checkPatterns_def split: option.splits)

lemma settle_settled:
  "settled (settle r s) = (case settled s of None \<Rightarrow> Some r | Some x \<Rightarrow> Some x)"
  by (simp add: settle_def split: option.splits)

lemma settle_frame [simp]:
  "out (settle r s) = out s" "err (settle r s) = err s" "timerArmed (settle r s) = timerArmed s"
  "timedOutFlag (settle r s) = timedOutFlag s" "fatal (settle r s) = fatal s" "kills (settle r s) = kills s"
  by (simp_all add: settle_def split: option.splits)

lemma step_settled_stable:
  "settled s = Some x \<Longrightarrow> settled (step opts s e) = Some x"
  by (cases e) (simp_all add: Let_def settle_settled)

lemma run_snoc: "run opts (evs @ [e]) = step opts (run opts evs) e"
  by (simp add: run_def)

lemma run_append: "run opts (evs @ evs') = foldl (step opts) (run opts evs) evs'"
  by (simp add: run_def)

lemma foldl_settled_stable:
  "settled s = Some x \<Longrightarrow> settled (foldl (step opts) s evs) = Some x"
  by (induction evs arbitrary: s) (simp_all add: step_settled_stable)

lemma unsettled_prefix:
  "settled (run opts (evs @ evs')) = None \<Longrightarrow> settled (run opts evs) = None"
  using foldl_settled_stable[of "run opts evs" _ opts evs']
  by (cases "settled (run opts evs)") (simp_all add: run_append)

lemma step_unsettled_cases:
  assumes "settled (step opts s e) = None"
  shows "settled s = None \<and> (\<forall>c. e \<noteq> Close c) \<and> (\<forall>m. e \<noteq> ProcessError m)"
  using assms by (cases e) (auto simp: Let_def settle_settled split: option.splits if_splits)

lemma step_out: "out (step opts s e) = out s @ (case e of StdoutData t \<Rightarrow> t | _ \<Rightarrow> [])"
  by (cases e) (simp_all add: Let_def)

lemma step_err: "err (step opts s e) = err s @ (case e of StderrData t \<Rightarrow> t | _ \<Rightarrow> [])"
  by (cases e) (simp_all add: Let_def)

lemma step_fatal:
  "(fatal (step opts s e) \<noteq> None)
   = (fatal s \<noteq> None
      \<or> (\<exists>chunk \<in> set (case e of StdoutData t \<Rightarrow> [t] | StderrData t \<Rightarrow> [t] | _ \<Rightarrow> []).
            firstMatch (fatalPatterns opts) chunk \<noteq> None))"
proof (cases e)
  case (StdoutData t)
  have "fatal (step opts s e) = fatal (checkPatterns opts t (s\<lparr>out := out s @ t\<rparr>))"
    by (simp add: StdoutData Let_def)
  then show ?thesis
    using checkPatterns_fatal[of opts t "s\<lparr>out := out s @ t\<rparr>"] by (simp add: StdoutData)
next
  case (StderrData t)
  then show ?thesis
    using checkPatterns_fatal[of opts t "s\<lparr>err := err s @ t\<rparr>"] by simp
qed simp_all

lemma out_run: "out (run opts evs) = stdoutText evs"
  by (induction evs rule: rev_induct)
     (simp_all add: run_snoc step_out stdoutText_def, simp add: run_def initial_def)

lemma err_run: "err (run opts evs) = stderrText evs"
  by (induction evs rule: rev_induct)
     (simp_all add: run_snoc step_err stderrText_def, simp add: run_def initial_def)

lemma fatal_run:
  "(fatal (run opts evs) \<noteq> None)
   = (\<exists>chunk \<in> set (dataChunks evs). firstMatch (fatalPatterns opts) chunk \<noteq> None)"
proof (induction evs rule: rev_induct)
  case Nil
  then show ?case by (simp add: run_def initial_def dataChunks_def)
next
  case (snoc e evs)
  have "dataChunks (evs @ [e])
        = dataChunks evs @ (case e of StdoutData t \<Rightarrow> [t] | StderrData t \<Rightarrow> [t] | _ \<Rightarrow> [])"
    by (simp add: dataChunks_def)
  then show ?case
    unfolding run_snoc step_fatal snoc.IH by (simp add: bex_Un)
qed

lemma step_timer:
  assumes "settled (step opts s e) = None"
  shows "timerArmed (step opts s e) = (timerArmed s \<and> e \<noteq> TimerFired)"
    and "timedOutFlag (step opts s e) = (timedOutFlag s \<or> (e = TimerFired \<and> timerArmed s))"
  using assms
  by (cases e; simp add: Let_def settle_settled split: if_splits option.splits)+

lemma timer_run:
  "settled (run opts evs) = None \<Longrightarrow>
     timerArmed (run opts evs) = (TimerFired \<notin> set evs)
     \<and> timedOutFlag (run opts evs) = (TimerFired \<in> set evs)"
proof (induction evs rule: rev_induct)
  case Nil
  then show ?case by (simp add: run_def initial_def)
next
  case (snoc e evs)
  from snoc.prems have u: "settled (step opts (run opts evs) e) = None" by (simp add: run_snoc)
  from step_unsettled_cases[OF u] have u0: "settled (run opts evs) = None" by simp
  from snoc.IH[OF u0] step_timer[OF u] show ?case
    by (auto simp: run_snoc)
qed

lemma close_resolves:
  assumes "settled (run opts pre) = None"
  shows "settled (run opts (pre @ Close c # post))
         = Some (Resolved \<lparr>stdout = trim (stdoutText pre), CommandResult.stderr = trim (stderrText pre),
                  code = (case c of None \<Rightarrow> 0 | Some n \<Rightarrow> n),
                  timedOut = (TimerFired \<in> set pre), fatalMatch = fatal (run opts pre)\<rparr>)"
proof -
  have "settled (step opts (run opts pre) (Close c))
        = Some (Resolved \<lparr>stdout = trim (stdoutText pre), CommandResult.stderr = trim (stderrText pre),
                  code = (case c of None \<Rightarrow> 0 | Some n \<Rightarrow> n),
                  timedOut = (TimerFired \<in> set pre), fatalMatch = fatal (run opts pre)\<rparr>)"
    using assms timer_run[OF assms] by (simp add: settle_settled out_run err_run)
  then have "settled (foldl (step opts) (step opts (run opts pre) (Close c)) post)
        = Some (Resolved \<lparr>stdout = trim (stdoutText pre), CommandResult.stderr = trim (stderrText pre),
                  code = (case c of None \<Rightarrow> 0 | Some n \<Rightarrow> n),
                  timedOut = (TimerFired \<in> set pre), fatalMatch = fatal (run opts pre)\<rparr>)"
    by (rule foldl_settled_stable)
  then show ?thesis by (simp add: run_append)
qed

section \<open>Normal exit, fatal match, timeout\<close>

text \<open>
  C6, as the code has it. While the promise is pending the timer never settles it: it
  only sets the flag and kills the child. The close event then resolves the promise,
  and the result carries \<open>timedOut\<close> and \<open>fatalMatch\<close> side by side: \<open>timedOut\<close> holds
  exactly when the timer fired before the close, \<open>fatalMatch\<close> is set exactly when a chunk
  matched a fatal pattern before the close, whatever the other one is. A normal exit is
  the case in which neither holds; no priority is applied when both do.
\<close>

theorem run_flags_independent:
  assumes "settled (run opts pre) = None"
  shows "settled (run opts (pre @ [TimerFired])) = None
     \<and> (\<exists>r. settled (run opts (pre @ Close c # post)) = Some (Resolved r)
           \<and> timedOut r = (TimerFired \<in> set pre)
           \<and> (fatalMatch r \<noteq> None)
               = (\<exists>chunk \<in> set (dataChunks pre). firstMatch (fatalPatterns opts) chunk \<noteq> None)
           \<and> isNormalExit r
               = (TimerFired \<notin> set pre
                  \<and> \<not> (\<exists>chunk \<in> set (dataChunks pre). firstMatch (fatalPatterns opts) chunk \<noteq> None))
           \<and> code r = (case c of None \<Rightarrow> 0 | Some n \<Rightarrow> n)
           \<and> stdout r = trim (stdoutText pre)
           \<and> CommandResult.stderr r = trim (stderrText pre))"
proof
  show "settled (run opts (pre @ [TimerFired])) = None"
    using assms by (simp add: run_snoc)
next
  let ?r = "\<lparr>stdout = trim (stdoutText pre), CommandResult.stderr = trim (stderrText pre),
                  code = (case c of None \<Rightarrow> 0 | Some n \<Rightarrow> n),
                  timedOut = (TimerFired \<in> set pre), fatalMatch = fatal (run opts pre)\<rparr>"
  have "settled (run opts (pre @ Close c # post)) = Some (Resolved ?r)"
    using assms by (rule close_resolves)
  moreover have "(fatalMatch ?r \<noteq> None)
      = (\<exists>chunk \<in> set (dataChunks pre). firstMatch (fatalPatterns opts) chunk \<noteq> None)"
    using fatal_run[of opts pre] by simp
  moreover have "isNormalExit ?r
      = (TimerFired \<notin> set pre
         \<and> \<not> (\<exists>chunk \<in> set (dataChunks pre). firstMatch (fatalPatterns opts) chunk \<noteq> None))"
    using fatal_run[of opts pre] by (auto simp: isNormalExit_def)
  ultimately show "\<exists>r. settled (run opts (pre @ Close c # post)) = Some (Resolved r)
           \<and> timedOut r = (TimerFired \<in> set pre)
           \<and> (fatalMatch r \<noteq> None)
               = (\<exists>chunk \<in> set (dataChunks pre). firstMatch (fatalPatterns opts) chunk \<noteq> None)
           \<and> isNormalExit r
               = (TimerFired \<notin> set pre
                  \<and> \<not> (\<exists>chunk \<in> set (dataChunks pre). firstMatch (fatalPatterns opts) chunk \<noteq> None))
           \<and> code r = (case c of None \<Rightarrow> 0 | Some n \<Rightarrow> n)
           \<and> stdout r = trim (stdoutText pre)
           \<and> CommandResult.stderr r = trim (stderrText pre)"
    by (intro exI[of _ ?r]) simp
qed

theorem run_flags_independent_witness:
  "\<exists>r. settled (run demoOptions ([StderrData ''passcode protected'', TimerFired] @ Close None # []))
          = Some (Resolved r)
       \<and> timedOut r \<and> fatalMatch r \<noteq> None \<and> \<not> isNormalExit r \<and> code r = 0"
proof -
  have u: "settled (run demoOptions [StderrData ''passcode protected'', TimerFired]) = None"
    by code_simp
  have m: "\<exists>chunk \<in> set (dataChunks [StderrData ''passcode protected'', TimerFired]).
             firstMatch (fatalPatterns demoOptions) chunk \<noteq> None"
    by code_simp
  from run_flags_independent[OF u, of None "[]"] m show ?thesis
    by auto
qed

text \<open>
  The claim as written fails for a run whose stderr matches a fatal pattern and whose
  timer fires before the killed process closes: the result is both a fatal match and a
  timeout.
\<close>

lemma both_run:
  "settled (run demoOptions [StderrData ''passcode protected'', TimerFired, Close None])
     = Some (Resolved bothResult)"
  by code_simp

theorem exactly_one_ending_counterexample:
  "settled (run demoOptions [StderrData ''passcode protected'', TimerFired, Close None])
     = Some (Resolved bothResult)
   \<and> isFatalMatch bothResult \<and> isTimeout bothResult \<and> \<not> exactlyOneEnding bothResult"
  using both_run
  by (simp add: bothResult_def isFatalMatch_def isTimeout_def isNormalExit_def exactlyOneEnding_def)

section \<open>The buffer limit\<close>

lemma stderr_only_run:
  "\<forall>e \<in> set evs. isStderrData e \<Longrightarrow> settled (run opts evs) = None \<and> err (run opts evs) = stderrText evs"
proof (induction evs rule: rev_induct)
  case Nil
  then show ?case by (simp add: run_def initial_def stderrText_def)
next
  case (snoc e evs)
  then obtain t where e: "e = StderrData t" by (cases e) auto
  from snoc have "settled (run opts evs) = None" by simp
  then show ?case by (simp add: run_snoc e err_run stderrText_def)
qed

lemma buffer_exceeded_iff:
  "(\<exists>n. settled (run opts evs) = Some (Rejected (BufferExceeded n)))
   \<longleftrightarrow> (\<exists>pre t post. evs = pre @ StdoutData t # post \<and> settled (run opts pre) = None
          \<and> length (stdoutText pre @ t) > maxBuffer opts)"
proof
  assume "\<exists>pre t post. evs = pre @ StdoutData t # post \<and> settled (run opts pre) = None
          \<and> length (stdoutText pre @ t) > maxBuffer opts"
  then obtain pre t post where evs: "evs = pre @ StdoutData t # post"
    and u: "settled (run opts pre) = None"
    and big: "length (stdoutText pre @ t) > maxBuffer opts" by blast
  have "settled (step opts (run opts pre) (StdoutData t))
        = Some (Rejected (BufferExceeded (maxBuffer opts)))"
    using u big by (simp add: Let_def settle_settled out_run)
  then have "settled (foldl (step opts) (step opts (run opts pre) (StdoutData t)) post)
        = Some (Rejected (BufferExceeded (maxBuffer opts)))"
    by (rule foldl_settled_stable)
  then show "\<exists>n. settled (run opts evs) = Some (Rejected (BufferExceeded n))"
    by (auto simp: evs run_append)
next
  assume "\<exists>n. settled (run opts evs) = Some (Rejected (BufferExceeded n))"
  then show "\<exists>pre t post. evs = pre @ StdoutData t # post \<and> settled (run opts pre) = None
          \<and> length (stdoutText pre @ t) > maxBuffer opts"
  proof (induction evs rule: rev_induct)
    case Nil
    then show ?case by (simp add: run_def initial_def)
  next
    case (snoc e evs)
    then obtain n where n: "settled (step opts (run opts evs) e) = Some (Rejected (BufferExceeded n))"
      by (auto simp: run_snoc)
    show ?case
    proof (cases "settled (run opts evs)")
      case None
      from n None obtain t where e: "e = StdoutData t"
        by (cases e) (auto simp: settle_settled Let_def split: if_splits)
      from n None have "length (out (run opts evs) @ t) > maxBuffer opts"
        by (auto simp: e Let_def settle_settled split: if_splits)
      then have "length (stdoutText evs @ t) > maxBuffer opts" by (simp add: out_run)
      with None e show ?thesis by blast
    next
      case (Some x)
      with n have "x = Rejected (BufferExceeded n)"
        using step_settled_stable[of "run opts evs" x opts e] by simp
      with Some snoc.IH obtain pre t post where "evs = pre @ StdoutData t # post"
        "settled (run opts pre) = None" "length (stdoutText pre @ t) > maxBuffer opts"
        by blast
      then have "evs @ [e] = pre @ StdoutData t # (post @ [e]) \<and> settled (run opts pre) = None
          \<and> length (stdoutText pre @ t) > maxBuffer opts" by simp
      then show ?thesis by blast
    qed
  qed
qed

lemma stderr_quiet_run:
  assumes "\<forall>e \<in> set evs. isStderrData e"
    and "\<forall>chunk \<in> set (dataChunks evs). firstMatch (fatalPatterns opts) chunk = None"
  shows "kills (run opts evs) = 0"
  using assms
proof (induction evs rule: rev_induct)
  case Nil
  then show ?case by (simp add: run_def initial_def)
next
  case (snoc e evs)
  then obtain t where e: "e = StderrData t" by (cases e) auto
  from snoc.prems(2) have m: "firstMatch (fatalPatterns opts) t = None"
    and rest: "\<forall>chunk \<in> set (dataChunks evs). firstMatch (fatalPatterns opts) chunk = None"
    by (auto simp: dataChunks_def e)
  from snoc.IH snoc.prems(1) rest have "kills (run opts evs) = 0" by simp
  then show ?case
    using checkPatterns_kills[of opts t "(run opts evs)\<lparr>err := err (run opts evs) @ t\<rparr>"] m
    by (simp add: run_snoc e)
qed

text \<open>
  C10. The promise is rejected with "buffer exceeded" exactly when some stdout chunk
  arrives while the promise is pending and makes the accumulated stdout longer than
  \<open>maxBuffer\<close>. A stderr chunk never settles the promise, whatever its size, and stderr
  grows without a bound: a run of stderr chunks alone leaves the promise pending with
  all of them accumulated. The size of stderr never kills the child either: a stderr
  chunk adds a kill only through the check for fatal patterns that every chunk of
  either stream undergoes, and chunks that match no fatal pattern add none.
\<close>

theorem buffer_exceeded_only_stdout:
  "((\<exists>n. settled (run opts evs) = Some (Rejected (BufferExceeded n)))
      \<longleftrightarrow> (\<exists>pre t post. evs = pre @ StdoutData t # post \<and> settled (run opts pre) = None
             \<and> length (stdoutText pre @ t) > maxBuffer opts))
   \<and> settled (step opts s (StderrData t)) = settled s
   \<and> err (step opts s (StderrData t)) = err s @ t
   \<and> kills (step opts s (StderrData t))
       = kills s + (if \<not> truthy (fatal s) \<and> firstMatch (fatalPatterns opts) t \<noteq> None then 1 else 0)
   \<and> (firstMatch (fatalPatterns opts) t = None \<longrightarrow> kills (step opts s (StderrData t)) = kills s)
   \<and> ((\<forall>e \<in> set evs. isStderrData e)
        \<longrightarrow> settled (run opts evs) = None \<and> err (run opts evs) = stderrText evs)
   \<and> ((\<forall>e \<in> set evs. isStderrData e)
        \<and> (\<forall>chunk \<in> set (dataChunks evs). firstMatch (fatalPatterns opts) chunk = None)
        \<longrightarrow> kills (run opts evs) = 0)"
proof (intro conjI impI)
  show "(\<exists>n. settled (run opts evs) = Some (Rejected (BufferExceeded n)))
      \<longleftrightarrow> (\<exists>pre t post. evs = pre @ StdoutData t # post \<and> settled (run opts pre) = None
             \<and> length (stdoutText pre @ t) > maxBuffer opts)"
    by (rule buffer_exceeded_iff)
  show "settled (step opts s (StderrData t)) = settled s" by simp
  show "err (step opts s (StderrData t)) = err s @ t" by simp
  show k: "kills (step opts s (StderrData t))
       = kills s + (if \<not> truthy (fatal s) \<and> firstMatch (fatalPatterns opts) t \<noteq> None then 1 else 0)"
    using checkPatterns_kills[of opts t "s\<lparr>err := err s @ t\<rparr>"] by simp
  show "kills (step opts s (StderrData t)) = kills s" if "firstMatch (fatalPatterns opts) t = None"
    using k that by simp
  show "settled (run opts evs) = None" if "\<forall>e \<in> set evs. isStderrData e"
    using stderr_only_run[OF that] by simp
  show "err (run opts evs) = stderrText evs" if "\<forall>e \<in> set evs. isStderrData e"
    by (rule err_run)
  show "kills (run opts evs) = 0"
    if "(\<forall>e \<in> set evs. isStderrData e)
        \<and> (\<forall>chunk \<in> set (dataChunks evs). firstMatch (fatalPatterns opts) chunk = None)"
    using that stderr_quiet_run by blast
qed

theorem buffer_exceeded_only_stdout_witness:
  "settled (run demoOptions [StderrData ''0123456789012345678901234567890123456789'',
                             StderrData ''0123456789012345678901234567890123456789'']) = None
   \<and> kills (run demoOptions [StderrData ''0123456789012345678901234567890123456789'',
                             StderrData ''0123456789012345678901234567890123456789'']) = 0
   \<and> length (stderrText [StderrData ''0123456789012345678901234567890123456789'',
                           StderrData ''0123456789012345678901234567890123456789'']) > maxBuffer demoOptions
   \<and> (\<exists>n. settled (run demoOptions [StdoutData ''01234567890123456789'',
                                     StdoutData ''01234567890123456789'']) = Some (Rejected (BufferExceeded n)))"
proof -
  let ?big = "''0123456789012345678901234567890123456789''"
  let ?half = "''01234567890123456789''"
  have a: "\<forall>e \<in> set [StderrData ?big, StderrData ?big]. isStderrData e" by simp
  have q: "\<forall>chunk \<in> set (dataChunks [StderrData ?big, StderrData ?big]).
             firstMatch (fatalPatterns demoOptions) chunk = None"
    by code_simp
  note T = buffer_exceeded_only_stdout[of demoOptions "[StderrData ?big, StderrData ?big]"]
  from T a have 1: "settled (run demoOptions [StderrData ?big, StderrData ?big]) = None" by blast
  from T a q have 2: "kills (run demoOptions [StderrData ?big, StderrData ?big]) = 0" by blast
  have 3: "length (stderrText [StderrData ?big, StderrData ?big]) > maxBuffer demoOptions"
    by code_simp
  have u: "settled (run demoOptions [StdoutData ?half]) = None" by code_simp
  have l: "length (stdoutText [StdoutData ?half] @ ?half) > maxBuffer demoOptions" by code_simp
  have "\<exists>pre t post. [StdoutData ?half, StdoutData ?half] = pre @ StdoutData t # post
          \<and> settled (run demoOptions pre) = None
          \<and> length (stdoutText pre @ t) > maxBuffer demoOptions"
    using u l by (intro exI[of _ "[StdoutData ?half]"] exI[of _ ?half] exI[of _ "[]"]) simp
  with buffer_exceeded_only_stdout[of demoOptions "[StdoutData ?half, StdoutData ?half]"]
  have 4: "\<exists>n. settled (run demoOptions [StdoutData ?half, StdoutData ?half])
             = Some (Rejected (BufferExceeded n))" by blast
  from 1 2 3 4 show ?thesis by simp
qed

text \<open>
  The check for fatal patterns is applied to stderr as it is to stdout: a short stderr
  chunk that matches a fatal pattern has the child killed.
\<close>

lemma stderr_fatal_match_kills:
  "kills (run demoOptions [StderrData ''passcode protected'']) = 1
   \<and> fatal (run demoOptions [StderrData ''passcode protected'']) = Some ''passcode''"
  by code_simp


section \<open>Success and error flag of the build tool\<close>

lemma timedOut_run:
  "settled (run demoOptions [StdoutData (''** BUILD SUCCEEDED **'' @ [CHR 0x0A]), TimerFired, Close None])
     = Some (Resolved timedOutResult)"
  by code_simp

text \<open>
  C9. The \<open>isError\<close> flag of the tool result negates the success of the raw summary, while
  the \<open>success\<close> of the response body also requires that the run did not time out. So a
  run that timed out with exit code 0 and a success marker in its output reports
  \<open>success = false\<close> in the body and \<open>isError = false\<close> on the result.
\<close>

theorem isError_ignores_timeout:
  "isError (xcodebuildBuildTool_response result)
     = (\<not> success (extractBuildSummary (stdout result) (CommandResult.stderr result) (code result)))
   \<and> responseSuccess (xcodebuildBuildTool_response result)
     = (success (extractBuildSummary (stdout result) (CommandResult.stderr result) (code result))
        \<and> \<not> timedOut result)
   \<and> (timedOut result \<and> code result = 0
        \<and> (\<exists>line \<in> set (buildLines (stdout result) (CommandResult.stderr result)). isSuccessIndicator line)
      \<longrightarrow> responseSuccess (xcodebuildBuildTool_response result) = False
          \<and> isError (xcodebuildBuildTool_response result) = False)"
  by (simp add: xcodebuildBuildTool_response_def buildSuccess_def Let_def success_iff_line)

theorem isError_ignores_timeout_witness:
  "settled (run demoOptions [StdoutData (''** BUILD SUCCEEDED **'' @ [CHR 0x0A]), TimerFired, Close None])
     = Some (Resolved timedOutResult)
   \<and> responseSuccess (xcodebuildBuildTool_response timedOutResult) = False
   \<and> isError (xcodebuildBuildTool_response timedOutResult) = False"
proof -
  have l: "buildLines (stdout timedOutResult) (CommandResult.stderr timedOutResult)
           = [''** BUILD SUCCEEDED **'', []]"
    by (simp add: buildLines_def timedOutResult_def)
  have p: "timedOut timedOutResult \<and> code timedOutResult = 0
        \<and> (\<exists>line \<in> set (buildLines (stdout timedOutResult) (CommandResult.stderr timedOutResult)).
              isSuccessIndicator line)"
    unfolding l by (simp add: timedOutResult_def isSuccessIndicator_def)
  from isError_ignores_timeout[of timedOutResult] p
  have "responseSuccess (xcodebuildBuildTool_response timedOutResult) = False
          \<and> isError (xcodebuildBuildTool_response timedOutResult) = False"
    by blast
  with timedOut_run show ?thesis by simp
qed

section \<open>Preferred build configuration\<close>

text \<open>
  C4. \<open>recordBuildResult\<close> with a failed outcome leaves what \<open>getPreferredBuildConfig\<close>
  returns (for every project) as it was; with a successful outcome the next
  \<open>getPreferredBuildConfig\<close> for that project returns the configuration just recorded;
  other projects are never touched. The build tool records the outcome with
  \<open>success = buildSuccess\<close>, so the final configuration of a build becomes the preferred
  one exactly when the build succeeded and did not time out.
\<close>

theorem recordBuildResult_preferred:
  "(\<not> metricSuccess outcome \<longrightarrow>
      getPreferredBuildConfig (recordBuildResult pc projectPath config outcome) p
        = getPreferredBuildConfig pc p)
   \<and> (metricSuccess outcome \<longrightarrow>
      getPreferredBuildConfig (recordBuildResult pc projectPath config outcome) projectPath
        = Some config)
   \<and> (p \<noteq> projectPath \<longrightarrow>
      getPreferredBuildConfig (recordBuildResult pc projectPath config outcome) p
        = getPreferredBuildConfig pc p)
   \<and> getPreferredBuildConfig (recordBuild pc projectPath config result now duration) projectPath
       = (if buildSuccess result then Some config else getPreferredBuildConfig pc projectPath)"
  by (auto simp: getPreferredBuildConfig_def recordBuildResult_def recordBuild_def Let_def
      split: option.splits)

theorem recordBuildResult_preferred_witness:
  "getPreferredBuildConfig
     (recordBuildResult (recordBuildResult emptyProjectCache ''SpaceTime.xcodeproj'' cachedTvConfig goodOutcome)
        ''SpaceTime.xcodeproj'' cachedIosConfig badOutcome)
     ''SpaceTime.xcodeproj''
   = Some cachedTvConfig"
proof -
  let ?pc1 = "recordBuildResult emptyProjectCache ''SpaceTime.xcodeproj'' cachedTvConfig goodOutcome"
  have g: "metricSuccess goodOutcome" by (simp add: goodOutcome_def)
  have b: "\<not> metricSuccess badOutcome" by (simp add: badOutcome_def)
  from recordBuildResult_preferred[of goodOutcome emptyProjectCache "''SpaceTime.xcodeproj''" cachedTvConfig] g
  have 1: "getPreferredBuildConfig ?pc1 ''SpaceTime.xcodeproj'' = Some cachedTvConfig" by blast
  from recordBuildResult_preferred[of badOutcome ?pc1 "''SpaceTime.xcodeproj''" cachedIosConfig "''SpaceTime.xcodeproj''"] b
  have "getPreferredBuildConfig (recordBuildResult ?pc1 ''SpaceTime.xcodeproj'' cachedIosConfig badOutcome)
          ''SpaceTime.xcodeproj''
        = getPreferredBuildConfig ?pc1 ''SpaceTime.xcodeproj''" by blast
  with 1 show ?thesis by simp
qed

section \<open>Reuse of the cached destination\<close>

lemma resolve_reuse:
  assumes "noExplicit explicitDestination" "truthy (destination cfg)"
    and "platformsCompatible (platform (deriveSdkInfo s)) (derivePlatformFromDestination (destination cfg))"
  shows "resolveDestination sc explicitDestination (Some cfg) projectPath s = destination cfg"
  using assms by (auto simp: resolveDestination_def noExplicit_def Let_def)

lemma resolve_mismatch:
  assumes "noExplicit explicitDestination"
    and "\<not> platformsCompatible (platform (deriveSdkInfo s)) (derivePlatformFromDestination (destination cfg))"
  shows "resolveDestination sc explicitDestination (Some cfg) projectPath s
         = resolveDestination sc explicitDestination None projectPath s"
  using assms by (auto simp: resolveDestination_def noExplicit_def Let_def)

lemma resolve_macos:
  assumes "noExplicit explicitDestination"
    and "platform (deriveSdkInfo s) = Some ''macos''"
    and "\<not> platformsCompatible (platform (deriveSdkInfo s)) (derivePlatformFromDestination (destination cfg))"
  shows "resolveDestination sc explicitDestination (Some cfg) projectPath s = None"
  using assms by (auto simp: resolveDestination_def noExplicit_def Let_def)

lemma macosx_platform: "platform (deriveSdkInfo (Some ''macosx'')) = Some ''macos''"
  by code_simp

lemma cached_ios_platform:
  "derivePlatformFromDestination (destination cachedIosConfig) = Some ''ios''"
  by code_simp

text \<open>
  X1. The resolver with the platform check (\<^verbatim>\<open>resolveDestination\<close>), when no explicit
  destination is given and a cached destination exists: the cached destination is
  returned as it is when its platform is compatible with that of the SDK; when it is not,
  the result is the one the resolver gives without any cached preference, and it is no
  destination at all when the SDK's platform is \<^verbatim>\<open>macos\<close>.
\<close>

theorem resolveDestination_reuses_compatible:
  "noExplicit explicitDestination \<and> truthy (destination cfg) \<longrightarrow>
     (platformsCompatible (platform (deriveSdkInfo s)) (derivePlatformFromDestination (destination cfg))
        \<longrightarrow> resolveDestination sc explicitDestination (Some cfg) projectPath s = destination cfg)
     \<and> (\<not> platformsCompatible (platform (deriveSdkInfo s)) (derivePlatformFromDestination (destination cfg))
        \<longrightarrow> resolveDestination sc explicitDestination (Some cfg) projectPath s
            = resolveDestination sc explicitDestination None projectPath s)
     \<and> (\<not> platformsCompatible (platform (deriveSdkInfo s)) (derivePlatformFromDestination (destination cfg))
          \<and> platform (deriveSdkInfo s) = Some ''macos''
        \<longrightarrow> resolveDestination sc explicitDestination (Some cfg) projectPath s = None)"
  using resolve_reuse resolve_mismatch resolve_macos by blast

theorem resolveDestination_reuses_compatible_witness:
  "resolveDestination noSimulators None (Some cachedTvConfig) ''SpaceTime.xcodeproj'' (Some ''tvossimulator'')
     = Some ''platform=tvOS Simulator,id=TV-1''
   \<and> resolveDestination noSimulators None (Some cachedIosConfig) ''SpaceTime.xcodeproj'' (Some ''macosx'')
     = None"
proof -
  have n: "noExplicit None" by code_simp
  have t1: "truthy (destination cachedTvConfig)" by code_simp
  have t2: "truthy (destination cachedIosConfig)" by code_simp
  have c1: "platformsCompatible (platform (deriveSdkInfo (Some ''tvossimulator'')))
              (derivePlatformFromDestination (destination cachedTvConfig))" by code_simp
  have c2: "\<not> platformsCompatible (platform (deriveSdkInfo (Some ''macosx'')))
              (derivePlatformFromDestination (destination cachedIosConfig))" by code_simp
  from resolveDestination_reuses_compatible[of None cachedTvConfig "Some ''tvossimulator''" noSimulators
      "''SpaceTime.xcodeproj''"] n t1 c1
  have 1: "resolveDestination noSimulators None (Some cachedTvConfig) ''SpaceTime.xcodeproj'' (Some ''tvossimulator'')
     = destination cachedTvConfig" by blast
  from resolveDestination_reuses_compatible[of None cachedIosConfig "Some ''macosx''" noSimulators
      "''SpaceTime.xcodeproj''"] n t2 c2 macosx_platform
  have 2: "resolveDestination noSimulators None (Some cachedIosConfig) ''SpaceTime.xcodeproj'' (Some ''macosx'')
     = None" by blast
  from 1 2 show ?thesis by (simp add: cachedTvConfig_def)
qed

text \<open>
  C5. The claim asks that a cached destination whose platform does not match the SDK is
  not reused, and that SDK \<^verbatim>\<open>macosx\<close> with a cached simulator destination gives no
  destination. On the input of the repository's own test (cached
  \<^verbatim>\<open>platform=iOS Simulator,id=CACHED\<close>, SDK \<^verbatim>\<open>macosx\<close>, no explicit destination) the two
  platforms are \<^verbatim>\<open>ios\<close> and \<^verbatim>\<open>macos\<close>, not compatible; \<^verbatim>\<open>resolveDestination\<close> gives no
  destination there, as claimed, but the resolution of \<^verbatim>\<open>src/tools/xcodebuild/build.ts\<close>
  (\<^verbatim>\<open>destination || getSmartDestination(...)\<close>) never looks at the SDK and hands the
  cached simulator destination to the macOS build.
\<close>

theorem getSmartDestination_reuses_mismatched:
  "smartDestination sc None (Some cachedIosConfig) projectPath
     = Some ''platform=iOS Simulator,id=CACHED''
   \<and> isSimulatorDestination ''platform=iOS Simulator,id=CACHED''
   \<and> platform (deriveSdkInfo (Some ''macosx'')) = Some ''macos''
   \<and> derivePlatformFromDestination (destination cachedIosConfig) = Some ''ios''
   \<and> \<not> platformsCompatible (platform (deriveSdkInfo (Some ''macosx'')))
         (derivePlatformFromDestination (destination cachedIosConfig))
   \<and> resolveDestination sc None (Some cachedIosConfig) projectPath (Some ''macosx'') = None"
proof -
  have a: "smartDestination sc None (Some cachedIosConfig) projectPath
     = Some ''platform=iOS Simulator,id=CACHED''"
    by (simp add: smartDestination_def getSmartDestination_def truthy_def cachedIosConfig_def)
  have b: "isSimulatorDestination ''platform=iOS Simulator,id=CACHED''" by code_simp
  have c: "\<not> platformsCompatible (platform (deriveSdkInfo (Some ''macosx'')))
         (derivePlatformFromDestination (destination cachedIosConfig))"
    by code_simp
  have n: "noExplicit None" by code_simp
  have d: "resolveDestination sc None (Some cachedIosConfig) projectPath (Some ''macosx'') = None"
    using n macosx_platform c by (rule resolve_macos)
  from a b macosx_platform cached_ios_platform c d show ?thesis by simp
qed

theorem getSmartDestination_reuses_mismatched_witness:
  "smartDestination noSimulators None (Some cachedIosConfig) ''SpaceTime.xcodeproj''
     = Some ''platform=iOS Simulator,id=CACHED''
   \<and> resolveDestination noSimulators None (Some cachedIosConfig) ''SpaceTime.xcodeproj'' (Some ''macosx'')
     = None"
  using getSmartDestination_reuses_mismatched[of noSimulators "''SpaceTime.xcodeproj''"]
  by blast

end
